theory Spec2Isabelle
  imports Complex_Main "HOL-Library.List_Lexorder" "HOL-Library.Product_Lexorder"
begin

section \<open>Values held in a table cell\<close>

text \<open>
  A Python string is a sequence of Unicode code points, so the text of a cell is a list of
  code points and its length is the number of code points. A cell of a DataFrame is a
  missing value (NaN, NaT), an integer, a string or a calendar date (year, month, day).
  Floating-point cells and column dtypes are outside this model.
\<close>

type_synonym pystr = "nat list"

datatype cell = Null | IntV int | StrV pystr | DateV nat nat nat

datatype error = KeyError | TypeError | ValueError | FileNotFoundError | OtherError

subsection \<open>Python's \<open>str(...)\<close> on a cell\<close>

fun digits :: "nat \<Rightarrow> pystr" where
  "digits n = (if n < 10 then [48 + n] else digits (n div 10) @ [48 + n mod 10])"

declare digits.simps [simp del]

definition zfill :: "nat \<Rightarrow> pystr \<Rightarrow> pystr" where
  "zfill w ds = replicate (w - length ds) 48 @ ds"

fun py_str :: "cell \<Rightarrow> pystr" where
  "py_str Null = [110, 97, 110]"
| "py_str (IntV i) = (if i < 0 then 45 # digits (nat (- i)) else digits (nat i))"
| "py_str (StrV s) = s"
| "py_str (DateV y m d) = zfill 4 (digits y) @ [45] @ zfill 2 (digits m) @ [45] @ zfill 2 (digits d)"

subsection \<open>Whitespace, \<open>re.sub(r'\\s+', ' ', text)\<close> and \<open>text.strip()\<close>\<close>

text \<open>
  The code points that Python counts as whitespace, both for the pattern \<open>\\s\<close> on a
  \<open>str\<close> and for \<open>str.strip()\<close>.
\<close>

definition is_space :: "nat \<Rightarrow> bool" where
  "is_space c \<longleftrightarrow>
     (9 \<le> c \<and> c \<le> 13) \<or> (28 \<le> c \<and> c \<le> 32) \<or> c = 133 \<or> c = 160 \<or> c = 5760 \<or>
     (8192 \<le> c \<and> c \<le> 8202) \<or> c = 8232 \<or> c = 8233 \<or> c = 8239 \<or> c = 8287 \<or> c = 12288"

function sub_ws :: "pystr \<Rightarrow> pystr" where
  "sub_ws [] = []"
| "sub_ws (c # cs) =
     (if is_space c then 32 # sub_ws (dropWhile is_space cs) else c # sub_ws cs)"
  by pat_completeness auto
termination
  by (relation "measure length") (auto simp: length_dropWhile_le less_Suc_eq_le)

definition strip :: "pystr \<Rightarrow> pystr" where
  "strip s = rev (dropWhile is_space (rev (dropWhile is_space s)))"

text \<open>The nested function \<open>clean_review_text\<close> of \<open>clean_text\<close>.\<close>

definition clean_review_text :: "cell \<Rightarrow> pystr" where
  "clean_review_text text =
     (if text = Null \<or> text = StrV [] then []
      else strip (sub_ws (py_str text)))"


section \<open>The DataFrame and the preprocessor object\<close>

text \<open>
  A DataFrame is its ordered list of column names and its ordered list of rows; a row maps
  a column name to the cell it holds. A column name that a row does not bind reads as a
  missing value. Row labels (the index) are not modelled, so \<open>reset_index\<close> changes
  nothing. Selecting rows by a boolean mask is \<open>filter\<close>.
\<close>

type_synonym row = "string \<rightharpoonup> cell"

record dataframe =
  columns :: "string list"
  rows :: "row list"

definition cell_at :: "row \<Rightarrow> string \<Rightarrow> cell" where
  "cell_at r c = (case r c of None \<Rightarrow> Null | Some v \<Rightarrow> v)"

text \<open>\<open>df[c] = f(df)\<close>: a column computed row by row, replaced in place or appended.\<close>

definition assign :: "dataframe \<Rightarrow> string \<Rightarrow> (row \<Rightarrow> cell) \<Rightarrow> dataframe" where
  "assign d c f =
     d\<lparr>columns := (if c \<in> set (columns d) then columns d else columns d @ [c]),
       rows := map (\<lambda>r. r(c \<mapsto> f r)) (rows d)\<rparr>"

definition fillna :: "dataframe \<Rightarrow> string \<Rightarrow> cell \<Rightarrow> dataframe" where
  "fillna d c v = assign d c (\<lambda>r. if cell_at r c = Null then v else cell_at r c)"

datatype stat = Count nat | PerColumn "(string \<times> nat) list"

datatype msg = Msg string "cell list"

record preprocessor =
  df :: dataframe
  stats :: "string \<rightharpoonup> stat"
  stdout :: "msg list"

definition print :: "msg \<Rightarrow> preprocessor \<Rightarrow> preprocessor" where
  "print m s = s\<lparr>stdout := stdout s @ [m]\<rparr>"

definition num :: "nat \<Rightarrow> cell" where
  "num n = IntV (int n)"

definition pystr_of :: "string \<Rightarrow> pystr" where
  "pystr_of = map of_char"

definition critical_cols :: "string list" where
  "critical_cols = [''review_text'', ''rating'', ''bank_name'']"

section \<open>The stages\<close>

subsection \<open>\<open>contains_amharic\<close>\<close>

definition contains_amharic :: "cell \<Rightarrow> bool" where
  "contains_amharic text = list_ex (\<lambda>ch. 4608 \<le> ch \<and> ch \<le> 4991) (py_str text)"

subsection \<open>\<open>check_missing_data\<close>\<close>

definition isnull_sum :: "dataframe \<Rightarrow> string \<Rightarrow> nat" where
  "isnull_sum d c = length (filter (\<lambda>r. cell_at r c = Null) (rows d))"

definition check_missing_data :: "preprocessor \<Rightarrow> error + preprocessor" where
  "check_missing_data s =
     (let s1 = print (Msg ''[1/7] Checking for missing data...'' []) s;
          missing = map (\<lambda>c. (c, isnull_sum (df s1) c)) (columns (df s1));
          s2 = print (Msg ''Missing values:'' []) s1;
          s3 = s2\<lparr>stdout := stdout s2 @
                  map (\<lambda>(c, n). Msg c [num n]) (filter (\<lambda>(c, n). n > 0) missing)\<rparr>;
          s4 = s3\<lparr>stats := (stats s3)(''missing_before'' \<mapsto> PerColumn missing)\<rparr>
      in if \<not> set critical_cols \<subseteq> set (columns (df s4)) then Inl KeyError
         else
           let missing_critical = map (isnull_sum (df s4)) critical_cols
           in if sum_list missing_critical > 0
              then Inr (print (Msg ''WARNING: Missing values in critical columns:''
                                 (map num (filter (\<lambda>n. n > 0) missing_critical))) s4)
              else Inr s4)"

subsection \<open>\<open>handle_missing_values\<close>\<close>

definition dropna :: "string list \<Rightarrow> dataframe \<Rightarrow> error + dataframe" where
  "dropna subs d =
     (if \<not> set subs \<subseteq> set (columns d) then Inl KeyError
      else Inr (d\<lparr>rows := filter (\<lambda>r. list_all (\<lambda>c. cell_at r c \<noteq> Null) subs) (rows d)\<rparr>))"

text \<open>\<open>if c in df.columns: df[c] = df[c].fillna(v)\<close>\<close>

definition fillna_if_present :: "dataframe \<Rightarrow> string \<Rightarrow> cell \<Rightarrow> dataframe" where
  "fillna_if_present d c v = (if c \<in> set (columns d) then fillna d c v else d)"

definition handle_missing_values :: "preprocessor \<Rightarrow> error + preprocessor" where
  "handle_missing_values s =
     (let s1 = print (Msg ''[2/7] Handling missing values...'' []) s;
          before_count = length (rows (df s1))
      in case dropna critical_cols (df s1) of
           Inl e \<Rightarrow> Inl e
         | Inr d1 \<Rightarrow>
            let removed = before_count - length (rows d1);
                s2 = (if removed > 0
                      then print (Msg ''Removed rows with missing critical values'' [num removed])
                             (s1\<lparr>df := d1\<rparr>)
                      else s1\<lparr>df := d1\<rparr>);
                d2 = fillna_if_present (df s2) ''user_name'' (StrV (pystr_of ''Anonymous''));
                d3 = fillna_if_present d2 ''thumbs_up'' (IntV 0);
                d4 = fillna_if_present d3 ''reply_content'' (StrV [])
            in Inr (s2\<lparr>df := d4,
                       stats := (stats s2)(''rows_removed_missing'' \<mapsto> Count removed,
                                           ''count_after_missing'' \<mapsto> Count (length (rows d4)))\<rparr>))"

subsection \<open>\<open>normalize_dates\<close>\<close>

text \<open>
  \<open>pd.to_datetime\<close> is a library function: \<open>parse\<close> stands for its conversion of one
  value that is neither missing nor a date already (\<open>None\<close> when it raises). A missing
  value becomes NaT. Converting a column raises as soon as one value does. The reduction
  \<open>min()\<close>/\<open>max()\<close> over the converted column, which the stage only prints, is the
  parameter \<open>col_range\<close>.
\<close>

definition to_datetime :: "(cell \<Rightarrow> (nat \<times> nat \<times> nat) option) \<Rightarrow> cell \<Rightarrow> cell option" where
  "to_datetime parse c =
     (case c of
        Null \<Rightarrow> Some Null
      | DateV y m d \<Rightarrow> Some (DateV y m d)
      | _ \<Rightarrow> (case parse c of None \<Rightarrow> None | Some (y, m, d) \<Rightarrow> Some (DateV y m d)))"

definition dt_year :: "cell \<Rightarrow> cell" where
  "dt_year c = (case c of DateV y m d \<Rightarrow> num y | _ \<Rightarrow> Null)"

definition dt_month :: "cell \<Rightarrow> cell" where
  "dt_month c = (case c of DateV y m d \<Rightarrow> num m | _ \<Rightarrow> Null)"

definition normalize_dates ::
  "(cell \<Rightarrow> (nat \<times> nat \<times> nat) option) \<Rightarrow> (cell list \<Rightarrow> error + cell \<times> cell) \<Rightarrow>
   preprocessor \<Rightarrow> preprocessor" where
  "normalize_dates parse col_range s =
     (let s1 = print (Msg ''[3/7] Normalizing dates...'' []) s;
          warning = Msg ''WARNING: Error normalizing dates'' []
      in if ''review_date'' \<notin> set (columns (df s1)) then print warning s1
         else if list_ex (\<lambda>r. to_datetime parse (cell_at r ''review_date'') = None) (rows (df s1))
         then print warning s1
         else
           let d1 = assign (df s1) ''review_date''
                      (\<lambda>r. case to_datetime parse (cell_at r ''review_date'') of
                              None \<Rightarrow> Null | Some v \<Rightarrow> v);
               d2 = assign d1 ''review_date'' (\<lambda>r. cell_at r ''review_date'');
               d3 = assign d2 ''review_year'' (\<lambda>r. dt_year (cell_at r ''review_date''));
               d4 = assign d3 ''review_month'' (\<lambda>r. dt_month (cell_at r ''review_date''));
               s2 = s1\<lparr>df := d4\<rparr>
           in case col_range (map (\<lambda>r. cell_at r ''review_date'') (rows d4)) of
                Inl e \<Rightarrow> print warning s2
              | Inr (lo, hi) \<Rightarrow> print (Msg ''Date range'' [lo, hi]) s2)"

subsection \<open>\<open>clean_text\<close>\<close>

definition str_len :: "cell \<Rightarrow> cell" where
  "str_len c = (case c of StrV t \<Rightarrow> num (length t) | _ \<Rightarrow> Null)"

definition gt0 :: "cell \<Rightarrow> bool" where
  "gt0 c = (case c of IntV n \<Rightarrow> n > 0 | _ \<Rightarrow> False)"

definition clean_text :: "preprocessor \<Rightarrow> error + preprocessor" where
  "clean_text s =
     (let s1 = print (Msg ''[4/7] Cleaning text...'' []) s
      in if ''review_text'' \<notin> set (columns (df s1)) then Inl KeyError
         else
           let d1 = assign (df s1) ''review_text''
                      (\<lambda>r. StrV (clean_review_text (cell_at r ''review_text'')));
               before_count = length (rows d1);
               d2 = d1\<lparr>rows := filter (\<lambda>r. gt0 (str_len (cell_at r ''review_text''))) (rows d1)\<rparr>;
               removed = before_count - length (rows d2);
               s2 = (if removed > 0
                     then print (Msg ''Removed reviews with empty text'' [num removed])
                            (s1\<lparr>df := d2\<rparr>)
                     else s1\<lparr>df := d2\<rparr>);
               d3 = assign (df s2) ''text_length'' (\<lambda>r. str_len (cell_at r ''review_text''))
           in Inr (s2\<lparr>df := d3,
                      stats := (stats s2)(''empty_reviews_removed'' \<mapsto> Count removed,
                                          ''count_after_cleaning'' \<mapsto> Count (length (rows d3)))\<rparr>))"

subsection \<open>\<open>remove_duplicates\<close>\<close>

text \<open>
  \<open>drop_duplicates()\<close> with its defaults compares whole rows over every column and
  keeps the first occurrence; two missing values in the same column count as equal.
  The scan carries the rows kept so far.
\<close>

definition row_eq :: "string list \<Rightarrow> row \<Rightarrow> row \<Rightarrow> bool" where
  "row_eq cols r r' = list_all (\<lambda>c. cell_at r c = cell_at r' c) cols"

fun drop_dups :: "string list \<Rightarrow> row list \<Rightarrow> row list \<Rightarrow> row list" where
  "drop_dups cols seen [] = []"
| "drop_dups cols seen (r # rs) =
     (if list_ex (\<lambda>k. row_eq cols k r) seen then drop_dups cols seen rs
      else r # drop_dups cols (seen @ [r]) rs)"

definition drop_duplicates :: "dataframe \<Rightarrow> dataframe" where
  "drop_duplicates d = d\<lparr>rows := drop_dups (columns d) [] (rows d)\<rparr>"

definition remove_duplicates :: "preprocessor \<Rightarrow> preprocessor" where
  "remove_duplicates s =
     (let s1 = print (Msg ''[5/7] Removing duplicate reviews...'' []) s;
          before_count = length (rows (df s1));
          s2 = s1\<lparr>df := drop_duplicates (df s1)\<rparr>;
          removed = before_count - length (rows (df s2));
          s3 = (if removed > 0 then print (Msg ''Removed duplicate reviews'' [num removed]) s2
                else print (Msg ''No duplicate reviews found'' []) s2)
      in s3\<lparr>stats := (stats s3)(''duplicates_removed'' \<mapsto> Count removed)\<rparr>)"

subsection \<open>\<open>filter_non_english_reviews\<close>\<close>

definition filter_non_english_reviews :: "preprocessor \<Rightarrow> error + preprocessor" where
  "filter_non_english_reviews s =
     (let s1 = print (Msg ''[6/7] Filtering out Amharic (non-English) reviews...'' []) s;
          before_count = length (rows (df s1))
      in if ''review_text'' \<notin> set (columns (df s1)) then Inl KeyError
         else
           let d1 = (df s1)\<lparr>rows :=
                      filter (\<lambda>r. \<not> contains_amharic (cell_at r ''review_text'')) (rows (df s1))\<rparr>;
               s2 = s1\<lparr>df := d1\<rparr>;
               removed = before_count - length (rows (df s2));
               s3 = (if removed > 0
                     then print (Msg ''Removed reviews containing Amharic characters''
                                   [num removed]) s2
                     else print (Msg ''No Amharic reviews found'' []) s2)
           in Inr (s3\<lparr>stats := (stats s3)(''amharic_reviews_removed'' \<mapsto> Count removed)\<rparr>))"

subsection \<open>\<open>validate_ratings\<close>\<close>

text \<open>
  Comparing a column with an integer: a string or a date raises \<open>TypeError\<close>, a missing
  value compares false with everything.
\<close>

definition comparable :: "cell \<Rightarrow> bool" where
  "comparable c = (case c of Null \<Rightarrow> True | IntV n \<Rightarrow> True | _ \<Rightarrow> False)"

definition cmp_lt :: "cell \<Rightarrow> int \<Rightarrow> bool" where
  "cmp_lt c k = (case c of IntV n \<Rightarrow> n < k | _ \<Rightarrow> False)"

definition cmp_gt :: "cell \<Rightarrow> int \<Rightarrow> bool" where
  "cmp_gt c k = (case c of IntV n \<Rightarrow> n > k | _ \<Rightarrow> False)"

definition cmp_ge :: "cell \<Rightarrow> int \<Rightarrow> bool" where
  "cmp_ge c k = (case c of IntV n \<Rightarrow> n \<ge> k | _ \<Rightarrow> False)"

definition cmp_le :: "cell \<Rightarrow> int \<Rightarrow> bool" where
  "cmp_le c k = (case c of IntV n \<Rightarrow> n \<le> k | _ \<Rightarrow> False)"

definition validate_ratings :: "preprocessor \<Rightarrow> error + preprocessor" where
  "validate_ratings s =
     (let s1 = print (Msg ''[7/7] Validating ratings...'' []) s
      in if ''rating'' \<notin> set (columns (df s1)) then Inl KeyError
         else if \<not> list_all (\<lambda>r. comparable (cell_at r ''rating'')) (rows (df s1)) then Inl TypeError
         else
           let invalid = filter (\<lambda>r. cmp_lt (cell_at r ''rating'') 1 \<or> cmp_gt (cell_at r ''rating'') 5)
                           (rows (df s1));
               s2 = (if length invalid > 0
                     then (print (Msg ''WARNING: Found reviews with invalid ratings''
                                    [num (length invalid)]) s1)
                            \<lparr>df := (df s1)\<lparr>rows :=
                               filter (\<lambda>r. cmp_ge (cell_at r ''rating'') 1 \<and> cmp_le (cell_at r ''rating'') 5)
                                 (rows (df s1))\<rparr>\<rparr>
                     else print (Msg ''All ratings are valid (1-5)'' []) s1)
           in Inr (s2\<lparr>stats := (stats s2)(''invalid_ratings_removed'' \<mapsto>
                                              Count (length invalid))\<rparr>))"


subsection \<open>\<open>prepare_final_output\<close>\<close>

text \<open>
  \<open>df[list_of_columns]\<close> keeps the listed columns in the listed order and raises
  \<open>KeyError\<close> when one of them is not a column of the frame.
\<close>

definition select_columns :: "dataframe \<Rightarrow> string list \<Rightarrow> error + dataframe" where
  "select_columns d cols =
     (if \<not> set cols \<subseteq> set (columns d) then Inl KeyError
      else Inr (d\<lparr>columns := cols, rows := map (\<lambda>r. r |` set cols) (rows d)\<rparr>))"

text \<open>
  The order of two cells of a sort key. Integers compare as integers, strings by code
  points, dates by calendar order; where a key column mixes kinds, integers come before
  strings and strings before dates. \<open>sort_values\<close> puts missing values last whatever
  the direction (\<open>na_position='last'\<close>), and sorting on several keys is stable.
\<close>

definition cell_key :: "cell \<Rightarrow> nat \<times> int \<times> pystr \<times> nat \<times> nat \<times> nat" where
  "cell_key c =
     (case c of
        IntV n \<Rightarrow> (0, n, [], 0, 0, 0)
      | StrV t \<Rightarrow> (1, 0, t, 0, 0, 0)
      | DateV y m d \<Rightarrow> (2, 0, [], y, m, d)
      | Null \<Rightarrow> (3, 0, [], 0, 0, 0))"

definition key_le :: "bool \<Rightarrow> cell \<Rightarrow> cell \<Rightarrow> bool" where
  "key_le ascending a b =
     (if b = Null then True
      else if a = Null then False
      else if ascending then cell_key a \<le> cell_key b
      else cell_key b \<le> cell_key a)"

fun rows_le :: "(string \<times> bool) list \<Rightarrow> row \<Rightarrow> row \<Rightarrow> bool" where
  "rows_le [] r r' = True"
| "rows_le ((c, ascending) # ks) r r' =
     (if cell_at r c = cell_at r' c then rows_le ks r r'
      else key_le ascending (cell_at r c) (cell_at r' c))"

fun insort_by :: "('a \<Rightarrow> 'a \<Rightarrow> bool) \<Rightarrow> 'a \<Rightarrow> 'a list \<Rightarrow> 'a list" where
  "insort_by lq x [] = [x]"
| "insort_by lq x (y # ys) = (if lq x y then x # y # ys else y # insort_by lq x ys)"

definition sort_by :: "('a \<Rightarrow> 'a \<Rightarrow> bool) \<Rightarrow> 'a list \<Rightarrow> 'a list" where
  "sort_by lq xs = foldr (insort_by lq) xs []"

definition sort_values :: "dataframe \<Rightarrow> (string \<times> bool) list \<Rightarrow> error + dataframe" where
  "sort_values d keys =
     (if \<not> set (map fst keys) \<subseteq> set (columns d) then Inl KeyError
      else Inr (d\<lparr>rows := sort_by (rows_le keys) (rows d)\<rparr>))"

definition output_columns :: "string list" where
  "output_columns =
     [''review_id'', ''review_text'', ''rating'', ''review_date'', ''review_year'',
      ''review_month'', ''bank_code'', ''bank_name'', ''user_name'', ''thumbs_up'',
      ''text_length'', ''source'']"

definition prepare_final_output :: "preprocessor \<Rightarrow> error + preprocessor" where
  "prepare_final_output s =
     (let s1 = print (Msg ''Preparing final output...'' []) s;
          cols = filter (\<lambda>col. col \<in> set (columns (df s1))) output_columns
      in case select_columns (df s1) cols of
           Inl e \<Rightarrow> Inl e
         | Inr d1 \<Rightarrow>
            (case sort_values d1 [(''bank_code'', True), (''review_date'', False)] of
               Inl e \<Rightarrow> Inl e
             | Inr d2 \<Rightarrow>
                Inr (print (Msg ''Final dataset'' [num (length (rows d2))]) (s1\<lparr>df := d2\<rparr>))))"

subsection \<open>\<open>load_data\<close>, \<open>save_data\<close>, \<open>generate_report\<close>\<close>

text \<open>
  Reading and writing files is outside the program: \<open>load_data\<close> takes what
  \<open>pd.read_csv\<close> returned or raised, \<open>save_data\<close> takes whether writing the file
  succeeded.
\<close>

definition load_data :: "error + dataframe \<Rightarrow> preprocessor \<Rightarrow> bool \<times> preprocessor" where
  "load_data read_csv s =
     (let s1 = print (Msg ''Loading raw data...'' []) s
      in case read_csv of
           Inr d \<Rightarrow>
             (let s2 = print (Msg ''Loaded reviews'' [num (length (rows d))]) (s1\<lparr>df := d\<rparr>)
              in (True, s2\<lparr>stats := (stats s2)(''original_count'' \<mapsto>
                                                  Count (length (rows (df s2))))\<rparr>))
         | Inl FileNotFoundError \<Rightarrow> (False, print (Msg ''ERROR: File not found'' []) s1)
         | Inl e \<Rightarrow> (False, print (Msg ''ERROR: Failed to load data'' []) s1))"

definition save_data :: "bool \<Rightarrow> preprocessor \<Rightarrow> bool \<times> preprocessor" where
  "save_data written s =
     (let s1 = print (Msg ''Saving processed data...'' []) s
      in if written
         then (let s2 = print (Msg ''Data saved'' []) s1
               in (True, s2\<lparr>stats := (stats s2)(''final_count'' \<mapsto>
                                                   Count (length (rows (df s2))))\<rparr>))
         else (False, print (Msg ''ERROR: Failed to save data'' []) s1))"

text \<open>\<open>self.stats.get(key, default)\<close> for the counters.\<close>

definition stats_get :: "(string \<rightharpoonup> stat) \<Rightarrow> string \<Rightarrow> nat \<Rightarrow> nat" where
  "stats_get st k dflt = (case st k of Some (Count n) \<Rightarrow> n | _ \<Rightarrow> dflt)"

definition retention_rate :: "(string \<rightharpoonup> stat) \<Rightarrow> real" where
  "retention_rate st =
     real (stats_get st ''final_count'' 0) / real (stats_get st ''original_count'' 1) * 100"

definition error_rate :: "(string \<rightharpoonup> stat) \<Rightarrow> real" where
  "error_rate st = 100 - retention_rate st"

text \<open>
  The report prints the counters, then the rates and the quality class when the original
  count is positive. The per-bank counts, the rating histogram, the date range and the
  text statistics that follow are printed from the frame without changing it and are left
  out; the rates are real numbers here.
\<close>

definition generate_report :: "preprocessor \<Rightarrow> preprocessor" where
  "generate_report s =
     (let st = stats s;
          s1 = s\<lparr>stdout := stdout s @
                 [Msg ''PREPROCESSING REPORT'' [],
                  Msg ''Original records'' [num (stats_get st ''original_count'' 0)],
                  Msg ''Records with missing critical data''
                    [num (stats_get st ''rows_removed_missing'' 0)],
                  Msg ''Empty reviews removed'' [num (stats_get st ''empty_reviews_removed'' 0)],
                  Msg ''Duplicate reviews removed'' [num (stats_get st ''duplicates_removed'' 0)],
                  Msg ''Amharic reviews removed'' [num (stats_get st ''amharic_reviews_removed'' 0)],
                  Msg ''Invalid ratings removed'' [num (stats_get st ''invalid_ratings_removed'' 0)],
                  Msg ''Final records'' [num (stats_get st ''final_count'' 0)]]\<rparr>
      in if stats_get st ''original_count'' 0 > 0
         then (let s2 = print (Msg ''Data retention rate'' [])
                          (print (Msg ''Data error rate'' []) s1)
               in if error_rate st < 5 then print (Msg ''Data quality: EXCELLENT'' []) s2
                  else if error_rate st < 10 then print (Msg ''Data quality: GOOD'' []) s2
                  else print (Msg ''Data quality: NEEDS ATTENTION'' []) s2)
         else s1)"

subsection \<open>\<open>process\<close>\<close>

definition then_do :: "error + 'a \<Rightarrow> ('a \<Rightarrow> error + 'b) \<Rightarrow> error + 'b" where
  "then_do m f = (case m of Inl e \<Rightarrow> Inl e | Inr x \<Rightarrow> f x)"

text \<open>
  A fresh \<open>ReviewPreprocessor\<close> has no frame and no statistics; the empty frame stands for
  \<open>None\<close>, which no stage reads before \<open>load_data\<close> has replaced it. \<open>process\<close> returns
  the method's boolean together with the object, or the exception that escaped a stage.
\<close>

definition new_preprocessor :: preprocessor where
  "new_preprocessor = \<lparr>df = \<lparr>columns = [], rows = []\<rparr>, stats = Map.empty, stdout = []\<rparr>"

definition process ::
  "(cell \<Rightarrow> (nat \<times> nat \<times> nat) option) \<Rightarrow> (cell list \<Rightarrow> error + cell \<times> cell) \<Rightarrow>
   error + dataframe \<Rightarrow> bool \<Rightarrow> error + bool \<times> preprocessor" where
  "process parse col_range read_csv written =
     (case load_data read_csv (print (Msg ''STARTING DATA PREPROCESSING'' []) new_preprocessor) of
        (False, s) \<Rightarrow> Inr (False, s)
      | (True, s) \<Rightarrow>
          then_do (check_missing_data s) (\<lambda>s.
          then_do (handle_missing_values s) (\<lambda>s.
          then_do (clean_text (normalize_dates parse col_range s)) (\<lambda>s.
          then_do (filter_non_english_reviews (remove_duplicates s)) (\<lambda>s.
          then_do (validate_ratings s) (\<lambda>s.
          then_do (prepare_final_output s) (\<lambda>s.
            case save_data written s of
              (True, s) \<Rightarrow> Inr (True, generate_report s)
            | (False, s) \<Rightarrow> Inr (False, s))))))))"

section \<open>Notions used in the statements\<close>

text \<open>
  A text is whitespace-normal when each whitespace character in it is a single space that
  is not followed by another whitespace character.
\<close>

fun ws_norm :: "pystr \<Rightarrow> bool" where
  "ws_norm [] = True"
| "ws_norm [c] = (is_space c \<longrightarrow> c = 32)"
| "ws_norm (c # d # cs) = ((is_space c \<longrightarrow> c = 32 \<and> \<not> is_space d) \<and> ws_norm (d # cs))"

text \<open>What \<open>handle_missing_values\<close> does to one row that it keeps.\<close>

definition critical_present :: "row \<Rightarrow> bool" where
  "critical_present r = list_all (\<lambda>c. cell_at r c \<noteq> Null) critical_cols"

definition fill1 :: "string list \<Rightarrow> string \<Rightarrow> cell \<Rightarrow> row \<Rightarrow> row" where
  "fill1 cols c v r =
     (if c \<in> set cols then r(c \<mapsto> (if cell_at r c = Null then v else cell_at r c)) else r)"

definition fill_defaults :: "string list \<Rightarrow> row \<Rightarrow> row" where
  "fill_defaults cols r =
     fill1 cols ''reply_content'' (StrV [])
       (fill1 cols ''thumbs_up'' (IntV 0)
          (fill1 cols ''user_name'' (StrV (pystr_of ''Anonymous'')) r))"

text \<open>
  A frame \<open>d'\<close> is derived from \<open>d\<close> up to the columns \<open>K\<close> when it keeps every column of
  \<open>d\<close>, has no more rows, and each of its rows agrees with some row of \<open>d\<close> on every
  column outside \<open>K\<close>.
\<close>

definition derived :: "string set \<Rightarrow> dataframe \<Rightarrow> dataframe \<Rightarrow> bool" where
  "derived K d d' \<longleftrightarrow>
     set (columns d) \<subseteq> set (columns d') \<and> length (rows d') \<le> length (rows d) \<and>
     (\<forall>r' \<in> set (rows d'). \<exists>r \<in> set (rows d). \<forall>c. c \<notin> K \<longrightarrow> cell_at r' c = cell_at r c)"

text \<open>What the stages do to one row, and when \<open>normalize_dates\<close> gives up.\<close>

definition dates_fail :: "(cell \<Rightarrow> (nat \<times> nat \<times> nat) option) \<Rightarrow> dataframe \<Rightarrow> bool" where
  "dates_fail parse d \<longleftrightarrow> ''review_date'' \<notin> set (columns d) \<or>
      list_ex (\<lambda>r. to_datetime parse (cell_at r ''review_date'') = None) (rows d)"

definition with_dates :: "(cell \<Rightarrow> (nat \<times> nat \<times> nat) option) \<Rightarrow> row \<Rightarrow> row" where
  "with_dates parse r =
     (let v = (case to_datetime parse (cell_at r ''review_date'') of None \<Rightarrow> Null | Some v \<Rightarrow> v)
      in r(''review_date'' \<mapsto> v, ''review_year'' \<mapsto> dt_year v, ''review_month'' \<mapsto> dt_month v))"

definition clean_row :: "row \<Rightarrow> row" where
  "clean_row r = r(''review_text'' \<mapsto> StrV (clean_review_text (cell_at r ''review_text'')))"

definition with_length :: "row \<Rightarrow> row" where
  "with_length r = r(''text_length'' \<mapsto> str_len (cell_at r ''review_text''))"

definition rating_valid :: "row \<Rightarrow> bool" where
  "rating_valid r \<longleftrightarrow> cmp_ge (cell_at r ''rating'') 1 \<and> cmp_le (cell_at r ''rating'') 5"

definition rating_invalid :: "row \<Rightarrow> bool" where
  "rating_invalid r \<longleftrightarrow> cmp_lt (cell_at r ''rating'') 1 \<or> cmp_gt (cell_at r ''rating'') 5"



definition final_columns :: "dataframe \<Rightarrow> string list" where
  "final_columns d = filter (\<lambda>col. col \<in> set (columns d)) output_columns"

section \<open>Invariants of the frame\<close>

text \<open>
  Each invariant says that the columns it speaks about are present and that every record
  satisfies a condition on them: the critical fields are not missing; \<open>text_length\<close> is
  the number of characters of the string \<open>review_text\<close>; no character of \<open>review_text\<close>
  has a code point from U+1200 (4608) to U+137F (4991); \<open>rating\<close> is an integer from 1 to 5.
\<close>

definition critical_inv :: "dataframe \<Rightarrow> bool" where
  "critical_inv d \<longleftrightarrow> set critical_cols \<subseteq> set (columns d) \<and> list_all critical_present (rows d)"





definition rating_in_range :: "row \<Rightarrow> bool" where
  "rating_in_range r = (case cell_at r ''rating'' of IntV n \<Rightarrow> 1 \<le> n \<and> n \<le> 5 | _ \<Rightarrow> False)"

definition rating_inv :: "dataframe \<Rightarrow> bool" where
  "rating_inv d \<longleftrightarrow> set [''rating''] \<subseteq> set (columns d) \<and> list_all rating_in_range (rows d)"

definition is_int :: "cell \<Rightarrow> bool" where
  "is_int c = (case c of IntV n \<Rightarrow> True | _ \<Rightarrow> False)"

text \<open>A condition on records that reads the columns \<open>C\<close> only.\<close>

definition reads_only :: "string list \<Rightarrow> (row \<Rightarrow> bool) \<Rightarrow> bool" where
  "reads_only C Q \<longleftrightarrow> (\<forall>r r'. (\<forall>c \<in> set C. cell_at r' c = cell_at r c) \<longrightarrow> Q r \<longrightarrow> Q r')"

section \<open>Example data\<close>

text \<open>
  Seven scraped reviews over the columns \<open>review_text\<close>, \<open>rating\<close>, \<open>review_date\<close>,
  \<open>bank_code\<close> and \<open>bank_name\<close>: the text \<open>"Good  app\n\n"\<close> rated 5 for bank CBE on
  2024-01-05, the same record once more, a text in Ethiopic script, a review rated 7, a
  review without rating, the text \<open>"ok"\<close> rated 3 for bank BOA on 2024-02-11, and a text
  of whitespace only.
\<close>

definition example_frame :: dataframe where
  "example_frame =
     \<lparr>columns = [''review_text'', ''rating'', ''review_date'', ''bank_code'', ''bank_name''],
      rows =
        [map_of [(''review_text'', StrV [71, 111, 111, 100, 32, 32, 97, 112, 112, 10, 10]),
                 (''rating'', IntV 5),
                 (''review_date'', StrV [50, 48, 50, 52, 45, 48, 49, 45, 48, 53]),
                 (''bank_code'', StrV [67, 66, 69]), (''bank_name'', StrV [67, 66, 69])],
         map_of [(''review_text'', StrV [71, 111, 111, 100, 32, 32, 97, 112, 112, 10, 10]),
                 (''rating'', IntV 5),
                 (''review_date'', StrV [50, 48, 50, 52, 45, 48, 49, 45, 48, 53]),
                 (''bank_code'', StrV [67, 66, 69]), (''bank_name'', StrV [67, 66, 69])],
         map_of [(''review_text'', StrV [4656, 4608]),
                 (''rating'', IntV 4),
                 (''review_date'', StrV [50, 48, 50, 52, 45, 48, 49, 45, 48, 53]),
                 (''bank_code'', StrV [66, 79, 65]), (''bank_name'', StrV [66, 79, 65])],
         map_of [(''review_text'', StrV [111, 107]),
                 (''rating'', IntV 7),
                 (''review_date'', StrV [50, 48, 50, 52, 45, 48, 49, 45, 48, 53]),
                 (''bank_code'', StrV [66, 79, 65]), (''bank_name'', StrV [66, 79, 65])],
         map_of [(''review_text'', StrV [111, 107]),
                 (''rating'', Null),
                 (''review_date'', StrV [50, 48, 50, 52, 45, 48, 49, 45, 48, 53]),
                 (''bank_code'', StrV [67, 66, 69]), (''bank_name'', StrV [67, 66, 69])],
         map_of [(''review_text'', StrV [111, 107]),
                 (''rating'', IntV 3),
                 (''review_date'', StrV [50, 48, 50, 52, 45, 48, 50, 45, 49, 49]),
                 (''bank_code'', StrV [66, 79, 65]), (''bank_name'', StrV [66, 79, 65])],
         map_of [(''review_text'', StrV [32, 10]),
                 (''rating'', IntV 2),
                 (''review_date'', StrV [50, 48, 50, 52, 45, 48, 50, 45, 49, 49]),
                 (''bank_code'', StrV [67, 66, 69]), (''bank_name'', StrV [67, 66, 69])]]\<rparr>"

definition example_state :: preprocessor where
  "example_state = \<lparr>df = example_frame, stats = Map.empty, stdout = []\<rparr>"

text \<open>A date parser that knows the two dates of the example, and a reduction that never raises.\<close>

definition example_parse :: "cell \<Rightarrow> (nat \<times> nat \<times> nat) option" where
  "example_parse c =
     (if c = StrV [50, 48, 50, 52, 45, 48, 49, 45, 48, 53] then Some (2024, 1, 5)
      else if c = StrV [50, 48, 50, 52, 45, 48, 50, 45, 49, 49] then Some (2024, 2, 11)
      else None)"

definition example_range :: "cell list \<Rightarrow> error + cell \<times> cell" where
  "example_range cs = (case cs of [] \<Rightarrow> Inr (Null, Null) | c # _ \<Rightarrow> Inr (c, c))"

text \<open>One review over the critical columns and \<open>review_date\<close>, without \<open>bank_code\<close>.\<close>

definition frame_without_bank_code :: dataframe where
  "frame_without_bank_code =
     \<lparr>columns = [''review_text'', ''rating'', ''review_date'', ''bank_name''],
      rows =
        [map_of [(''review_text'', StrV [111, 107]),
                 (''rating'', IntV 3),
                 (''review_date'', StrV [50, 48, 50, 52, 45, 48, 50, 45, 49, 49]),
                 (''bank_name'', StrV [66, 79, 65])]]\<rparr>"

definition runnable :: "dataframe \<Rightarrow> bool" where
  "runnable d \<longleftrightarrow> set critical_cols \<subseteq> set (columns d) \<and>
     list_all (\<lambda>r. comparable (cell_at r ''rating'')) (rows d)"

definition touched :: "string set" where
  "touched = {''user_name'', ''thumbs_up'', ''reply_content'', ''review_date'', ''review_year'',
     ''review_month'', ''review_text'', ''text_length''}"

text \<open>The object after \<open>load_data\<close> has read the frame \<open>d\<close>.\<close>

definition loaded :: "dataframe \<Rightarrow> preprocessor" where
  "loaded d = snd (load_data (Inr d) (print (Msg ''STARTING DATA PREPROCESSING'' []) new_preprocessor))"

section \<open>Text cleaning\<close>

lemma ws_norm_sub_ws: "ws_norm (sub_ws s)"
proof (induction s rule: sub_ws.induct)
  case 1
  show ?case by simp
next
  case (2 c cs)
  show ?case
  proof (cases "is_space c")
    case True
    show ?thesis
    proof (cases "dropWhile is_space cs")
      case Nil
      have "sub_ws (c # cs) = [32]"
        by (simp only: sub_ws.simps True Nil if_True)
      then show ?thesis by simp
    next
      case (Cons d ds)
      have "\<not> is_space (hd (dropWhile is_space cs))"
        by (rule hd_dropWhile) (simp add: Cons del: dropWhile_eq_Nil_conv)
      with Cons have nd: "\<not> is_space d" by simp
      from 2(1) [OF True] Cons have "ws_norm (sub_ws (d # ds))" by simp
      with nd True Cons show ?thesis by simp
    qed
  next
    case False
    with 2 show ?thesis by (cases cs) auto
  qed
qed

lemma sub_ws_fixed: "ws_norm s \<Longrightarrow> sub_ws s = s"
  by (induction s rule: ws_norm.induct) auto

lemma ws_norm_dropWhile: "ws_norm s \<Longrightarrow> ws_norm (dropWhile P s)"
  by (induction s rule: ws_norm.induct) auto

lemma ws_norm_take: "ws_norm s \<Longrightarrow> ws_norm (take n s)"
proof (induction s arbitrary: n rule: ws_norm.induct)
  case 1
  show ?case by simp
next
  case (2 c)
  then show ?case by (cases n) auto
next
  case (3 c d cs)
  show ?case
  proof (cases n)
    case 0
    then show ?thesis by simp
  next
    case (Suc m)
    from 3 have "ws_norm (take m (d # cs))" by simp
    with 3(2) Suc show ?thesis by (cases m) auto
  qed
qed

lemma rstrip_is_take:
  "rev (dropWhile P (rev s)) = take (length s - length (takeWhile P (rev s))) s"
  by (simp add: dropWhile_eq_drop rev_drop)

lemma ws_norm_strip: "ws_norm s \<Longrightarrow> ws_norm (strip s)"
  unfolding strip_def rstrip_is_take by (intro ws_norm_take ws_norm_dropWhile)

lemma dropWhile_unchanged: "s = [] \<or> \<not> P (hd s) \<Longrightarrow> dropWhile P s = s"
  by (cases s) auto

lemma hd_take_nonempty: "take k u \<noteq> [] \<Longrightarrow> u \<noteq> [] \<and> hd (take k u) = hd u"
  by (cases u; cases k) auto

lemma strip_no_leading_space: "strip s = [] \<or> \<not> is_space (hd (strip s))"
proof (cases "strip s = []")
  case True
  then show ?thesis by simp
next
  case False
  define u where "u = dropWhile is_space s"
  define k where "k = length u - length (takeWhile is_space (rev u))"
  have st: "strip s = take k u"
    unfolding strip_def u_def [symmetric] k_def by (rule rstrip_is_take)
  with False have "take k u \<noteq> []" by simp
  then have ne: "u \<noteq> []" and hd: "hd (take k u) = hd u"
    using hd_take_nonempty by blast+
  from ne have "\<not> is_space (hd u)"
    unfolding u_def by (rule hd_dropWhile)
  with hd st show ?thesis by simp
qed

lemma strip_strip: "strip (strip s) = strip s"
proof -
  have "dropWhile is_space (strip s) = strip s"
    using strip_no_leading_space by (rule dropWhile_unchanged)
  then have "strip (strip s) = rev (dropWhile is_space (rev (strip s)))"
    by (simp add: strip_def)
  also have "rev (strip s) = dropWhile is_space (rev (dropWhile is_space s))"
    by (simp add: strip_def)
  finally show ?thesis by (simp add: strip_def)
qed

text \<open>
  Claim C9. Cleaning a text that \<open>clean_review_text\<close> has already cleaned gives the same
  text back: \<open>clean(clean(s)) = clean(s)\<close>, for every cell value the function may be
  given, a string in particular.
\<close>

theorem clean_review_text_idempotent:
  "clean_review_text (StrV (clean_review_text text)) = clean_review_text text"
proof (cases "text = Null \<or> text = StrV []")
  case True
  then show ?thesis by (auto simp: clean_review_text_def)
next
  case False
  define t where "t = strip (sub_ws (py_str text))"
  have t: "clean_review_text text = t"
    using False by (simp add: clean_review_text_def t_def)
  have "ws_norm t"
    unfolding t_def by (intro ws_norm_strip ws_norm_sub_ws)
  then have "strip (sub_ws t) = strip t"
    by (simp add: sub_ws_fixed)
  also have "strip t = t"
    unfolding t_def by (rule strip_strip)
  finally have "clean_review_text (StrV t) = t"
    by (auto simp: clean_review_text_def)
  with t show ?thesis by simp
qed

section \<open>Stable sorting by a total preorder\<close>





lemma set_insort_by [simp]: "set (insort_by lq x xs) = insert x (set xs)"
  by (induction xs) auto

lemma length_insort_by [simp]: "length (insort_by lq x xs) = Suc (length xs)"
  by (induction xs) auto

lemma set_sort_by [simp]: "set (sort_by lq xs) = set xs"
  by (induction xs) (auto simp: sort_by_def)

lemma length_sort_by [simp]: "length (sort_by lq xs) = length xs"
  by (induction xs) (auto simp: sort_by_def)







subsection \<open>The order of \<open>sort_values\<close> on rows\<close>







lemma rows_le_same_keys:
  "\<forall>c \<in> fst ` set ks. cell_at x c = cell_at y c \<Longrightarrow> rows_le ks x y"
  by (induction ks) auto




section \<open>What each stage does to the frame\<close>


lemma df_print [simp]: "df (print m s) = df s"
  by (simp add: print_def)

lemma stats_print [simp]: "stats (print m s) = stats s"
  by (simp add: print_def)

lemma cell_at_upd [simp]: "cell_at (r(c \<mapsto> v)) c' = (if c' = c then v else cell_at r c')"
  by (simp add: cell_at_def)

lemma cell_at_restrict [simp]: "c \<in> S \<Longrightarrow> cell_at (r |` S) c = cell_at r c"
  by (simp add: cell_at_def)

lemma set_columns_assign [simp]: "set (columns (assign d c f)) = insert c (set (columns d))"
  by (auto simp: assign_def)

lemma rows_assign [simp]: "rows (assign d c f) = map (\<lambda>r. r(c \<mapsto> f r)) (rows d)"
  by (simp add: assign_def)

lemma rows_fillna [simp]:
  "rows (fillna d c v) = map (\<lambda>r. r(c \<mapsto> (if cell_at r c = Null then v else cell_at r c))) (rows d)"
  by (simp add: fillna_def)

lemma columns_fillna: "c \<in> set (columns d) \<Longrightarrow> columns (fillna d c v) = columns d"
  by (simp add: fillna_def assign_def)

lemma derived_refl: "derived K d d"
  by (auto simp: derived_def)

lemma derived_eq: "df s' = df s \<Longrightarrow> derived K (df s) (df s')"
  by (simp add: derived_refl)

lemma derived_filter:
  "columns d' = columns d \<Longrightarrow> rows d' = filter P (rows d) \<Longrightarrow> derived K d d'"
  by (auto simp: derived_def)

lemma derived_mono: "derived K d d' \<Longrightarrow> K \<subseteq> K' \<Longrightarrow> derived K' d d'"
  unfolding derived_def by blast

subsection \<open>\<open>check_missing_data\<close>\<close>

lemma check_missing_data_df: "check_missing_data s = Inr s' \<Longrightarrow> df s' = df s"
  by (auto simp: check_missing_data_def Let_def split: if_splits)

lemma check_missing_data_stats:
  "check_missing_data s = Inr s' \<Longrightarrow> k \<noteq> ''missing_before'' \<Longrightarrow> stats s' k = stats s k"
  by (auto simp: check_missing_data_def Let_def split: if_splits)

lemma check_missing_data_ok:
  "set critical_cols \<subseteq> set (columns (df s)) \<Longrightarrow> \<exists>s'. check_missing_data s = Inr s'"
  by (auto simp: check_missing_data_def Let_def)

lemma check_missing_data_cols:
  "check_missing_data s = Inr s' \<Longrightarrow> set critical_cols \<subseteq> set (columns (df s))"
  by (auto simp: check_missing_data_def Let_def split: if_splits)

subsection \<open>\<open>handle_missing_values\<close>\<close>

lemma cell_at_fill1: "c' \<noteq> c \<Longrightarrow> cell_at (fill1 cols c v r) c' = cell_at r c'"
  by (simp add: fill1_def)

lemma rows_fillna_if_present:
  "rows (fillna_if_present d c v) = map (fill1 (columns d) c v) (rows d)"
  by (simp add: fillna_if_present_def fill1_def [abs_def])

lemma columns_fillna_if_present [simp]: "columns (fillna_if_present d c v) = columns d"
  by (simp add: fillna_if_present_def columns_fillna)

lemma handle_missing_values_df:
  assumes "handle_missing_values s = Inr s'"
  shows "rows (df s') = map (fill_defaults (columns (df s))) (filter critical_present (rows (df s)))"
    and "columns (df s') = columns (df s)"
    and "set critical_cols \<subseteq> set (columns (df s))"
proof -
  from assms show c: "set critical_cols \<subseteq> set (columns (df s))"
    by (auto simp: handle_missing_values_def dropna_def Let_def split: if_splits)
  define d1 where "d1 = (df s)\<lparr>rows := filter critical_present (rows (df s))\<rparr>"
  have dn: "dropna critical_cols (df (print (Msg ''[2/7] Handling missing values...'' []) s)) = Inr d1"
    using c by (simp add: dropna_def d1_def critical_present_def [abs_def])
  have "df s' = fillna_if_present (fillna_if_present (fillna_if_present d1 ''user_name'' (StrV (pystr_of ''Anonymous''))) ''thumbs_up'' (IntV 0)) ''reply_content'' (StrV [])"
    using assms unfolding handle_missing_values_def Let_def dn by (auto split: if_splits)
  then show "rows (df s') = map (fill_defaults (columns (df s))) (filter critical_present (rows (df s)))"
    and "columns (df s') = columns (df s)"
    by (simp_all add: rows_fillna_if_present d1_def fill_defaults_def [abs_def])
qed

lemma handle_missing_values_ok:
  "set critical_cols \<subseteq> set (columns (df s)) \<Longrightarrow> \<exists>s'. handle_missing_values s = Inr s'"
  by (simp add: handle_missing_values_def dropna_def Let_def)

lemma cell_at_fill_defaults:
  "c \<notin> {''user_name'', ''thumbs_up'', ''reply_content''} \<Longrightarrow>
   cell_at (fill_defaults cols r) c = cell_at r c"
  by (simp add: fill_defaults_def cell_at_fill1)

lemma handle_missing_values_derived:
  assumes "handle_missing_values s = Inr s'"
  shows "derived {''user_name'', ''thumbs_up'', ''reply_content''} (df s) (df s')"
  unfolding derived_def handle_missing_values_df [OF assms]
  by (auto simp: cell_at_fill_defaults simp del: insert_iff intro: order_trans [OF _ length_filter_le])

subsection \<open>\<open>normalize_dates\<close>\<close>

lemma normalize_dates_fail:
  assumes "dates_fail parse (df s)"
  shows "normalize_dates parse cr s = s\<lparr>stdout := stdout s @ [Msg ''[3/7] Normalizing dates...'' [], Msg ''WARNING: Error normalizing dates'' []]\<rparr>"
  using assms by (auto simp: normalize_dates_def dates_fail_def Let_def print_def)

lemma normalize_dates_stats [simp]: "stats (normalize_dates parse cr s) = stats s"
  by (auto simp: normalize_dates_def Let_def split: sum.splits prod.splits)

lemma normalize_dates_ok:
  assumes "\<not> dates_fail parse (df s)"
  shows "rows (df (normalize_dates parse cr s)) = map (with_dates parse) (rows (df s))"
    and "set (columns (df (normalize_dates parse cr s))) = set (columns (df s)) \<union> {''review_year'', ''review_month''}"
  using assms
  by (auto simp: normalize_dates_def dates_fail_def Let_def with_dates_def split: sum.splits prod.splits)

lemma normalize_dates_derived:
  "derived {''review_date'', ''review_year'', ''review_month''} (df s) (df (normalize_dates parse cr s))"
proof (cases "dates_fail parse (df s)")
  case True
  then show ?thesis by (simp add: normalize_dates_fail derived_refl)
next
  case False
  show ?thesis
    unfolding derived_def normalize_dates_ok [OF False]
    by (auto simp: with_dates_def Let_def)
qed

subsection \<open>\<open>clean_text\<close>\<close>

lemma clean_text_df:
  assumes "clean_text s = Inr s'"
  shows "rows (df s') = map with_length (filter (\<lambda>r. gt0 (str_len (cell_at r ''review_text''))) (map clean_row (rows (df s))))"
    and "set (columns (df s')) = insert ''text_length'' (set (columns (df s)))"
    and "''review_text'' \<in> set (columns (df s))"
  using assms
  by (auto simp: clean_text_def Let_def clean_row_def [abs_def] with_length_def [abs_def] split: if_splits)

lemma clean_text_ok:
  "''review_text'' \<in> set (columns (df s)) \<Longrightarrow> \<exists>s'. clean_text s = Inr s'"
  by (simp add: clean_text_def Let_def)

lemma clean_text_derived:
  assumes "clean_text s = Inr s'"
  shows "derived {''review_text'', ''text_length''} (df s) (df s')"
  unfolding derived_def clean_text_df [OF assms]
  by (auto simp: with_length_def clean_row_def intro: order_trans [OF length_filter_le])


subsection \<open>remove_duplicates\<close>

lemma row_eq_refl: "row_eq cols r r"
  by (simp add: row_eq_def list_all_iff)

lemma row_eq_sym: "row_eq cols r r' \<Longrightarrow> row_eq cols r' r"
  by (simp add: row_eq_def list_all_iff)

lemma row_eq_trans: "row_eq cols r r' \<Longrightarrow> row_eq cols r' r'' \<Longrightarrow> row_eq cols r r''"
  by (simp add: row_eq_def list_all_iff)

lemma set_drop_dups: "set (drop_dups cols seen rs) \<subseteq> set rs"
  by (induction rs arbitrary: seen) auto

lemma length_drop_dups: "length (drop_dups cols seen rs) \<le> length rs"
  by (induction rs arbitrary: seen) (auto simp: le_SucI)

lemma drop_dups_nths:
  "drop_dups cols seen rs =
     nths rs {i. \<not> (\<exists>k \<in> set seen. row_eq cols k (rs ! i)) \<and>
                 \<not> (\<exists>j < i. row_eq cols (rs ! j) (rs ! i))}"
proof (induction rs arbitrary: seen)
  case Nil
  show ?case by simp
next
  case (Cons r rs)
  let ?A = "{i. \<not> (\<exists>k \<in> set seen. row_eq cols k ((r # rs) ! i)) \<and>
                 \<not> (\<exists>j < i. row_eq cols ((r # rs) ! j) ((r # rs) ! i))}"
  have ex_Suc: "(\<exists>j < Suc i. row_eq cols ((r # rs) ! j) (rs ! i)) \<longleftrightarrow>
      row_eq cols r (rs ! i) \<or> (\<exists>j < i. row_eq cols (rs ! j) (rs ! i))" for i
  proof
    assume "\<exists>j < Suc i. row_eq cols ((r # rs) ! j) (rs ! i)"
    then obtain j where j: "j < Suc i" "row_eq cols ((r # rs) ! j) (rs ! i)" by blast
    then show "row_eq cols r (rs ! i) \<or> (\<exists>j < i. row_eq cols (rs ! j) (rs ! i))"
      by (cases j) auto
  next
    assume "row_eq cols r (rs ! i) \<or> (\<exists>j < i. row_eq cols (rs ! j) (rs ! i))"
    then show "\<exists>j < Suc i. row_eq cols ((r # rs) ! j) (rs ! i)"
    proof
      assume "row_eq cols r (rs ! i)"
      then have "0 < Suc i \<and> row_eq cols ((r # rs) ! 0) (rs ! i)" by simp
      then show ?thesis by blast
    next
      assume "\<exists>j < i. row_eq cols (rs ! j) (rs ! i)"
      then obtain j where "j < i" "row_eq cols (rs ! j) (rs ! i)" by blast
      then have "Suc j < Suc i \<and> row_eq cols ((r # rs) ! Suc j) (rs ! i)" by simp
      then show ?thesis by blast
    qed
  qed
  have mem: "Suc i \<in> ?A \<longleftrightarrow> \<not> (\<exists>k \<in> set seen. row_eq cols k (rs ! i)) \<and>
      \<not> row_eq cols r (rs ! i) \<and> \<not> (\<exists>j < i. row_eq cols (rs ! j) (rs ! i))" for i
    unfolding mem_Collect_eq nth_Cons_Suc ex_Suc by blast
  show ?case
  proof (cases "\<exists>k \<in> set seen. row_eq cols k r")
    case True
    then obtain k where k: "k \<in> set seen" "row_eq cols k r" by blast
    have "{j. Suc j \<in> ?A} = {i. \<not> (\<exists>k \<in> set seen. row_eq cols k (rs ! i)) \<and>
                 \<not> (\<exists>j < i. row_eq cols (rs ! j) (rs ! i))}"
      unfolding mem using k by (blast dest: row_eq_trans)
    moreover have "0 \<notin> ?A" using True by simp
    ultimately show ?thesis
      using True Cons.IH [of seen] by (simp add: nths_Cons list_ex_iff)
  next
    case False
    have "{j. Suc j \<in> ?A} = {i. \<not> (\<exists>k \<in> set (seen @ [r]). row_eq cols k (rs ! i)) \<and>
                 \<not> (\<exists>j < i. row_eq cols (rs ! j) (rs ! i))}"
      unfolding mem by auto
    moreover have "0 \<in> ?A" using False by simp
    ultimately show ?thesis
      using False Cons.IH [of "seen @ [r]"] by (simp add: nths_Cons list_ex_iff)
  qed
qed

lemma drop_dups_not_seen:
  "x \<in> set (drop_dups cols seen rs) \<Longrightarrow> \<forall>k \<in> set seen. \<not> row_eq cols k x"
proof (induction rs arbitrary: seen)
  case Nil
  then show ?case by simp
next
  case (Cons r rs)
  show ?case
  proof (cases "list_ex (\<lambda>k. row_eq cols k r) seen")
    case True
    with Cons show ?thesis by simp
  next
    case False
    with Cons.prems have "x = r \<or> x \<in> set (drop_dups cols (seen @ [r]) rs)" by simp
    then show ?thesis
    proof
      assume "x = r"
      with False show ?thesis by (simp add: list_ex_iff)
    next
      assume "x \<in> set (drop_dups cols (seen @ [r]) rs)"
      from Cons.IH [OF this] show ?thesis by simp
    qed
  qed
qed

lemma drop_dups_distinct:
  "i < j \<Longrightarrow> j < length (drop_dups cols seen rs) \<Longrightarrow>
   \<not> row_eq cols (drop_dups cols seen rs ! i) (drop_dups cols seen rs ! j)"
proof (induction rs arbitrary: seen i j)
  case Nil
  then show ?case by simp
next
  case (Cons r rs)
  show ?case
  proof (cases "list_ex (\<lambda>k. row_eq cols k r) seen")
    case True
    with Cons show ?thesis by simp
  next
    case False
    let ?t = "drop_dups cols (seen @ [r]) rs"
    from False have eq: "drop_dups cols seen (r # rs) = r # ?t" by simp
    from Cons.prems obtain j' where j': "j = Suc j'" "j' < length ?t"
      unfolding eq by (cases j) auto
    show ?thesis
    proof (cases i)
      case 0
      have "?t ! j' \<in> set ?t" using j' by simp
      then have "\<not> row_eq cols r (?t ! j')"
        using drop_dups_not_seen by fastforce
      with 0 j' show ?thesis unfolding eq by simp
    next
      case (Suc i')
      with Cons.prems j' have "i' < j'" by simp
      from Cons.IH [OF this j'(2)] Suc j' show ?thesis unfolding eq by simp
    qed
  qed
qed

lemma remove_duplicates_df [simp]:
  "df (remove_duplicates s) = drop_duplicates (df s)"
  by (simp add: remove_duplicates_def Let_def)

lemma remove_duplicates_derived: "derived K (df s) (df (remove_duplicates s))"
  using set_drop_dups [of "columns (df s)" "[]" "rows (df s)"]
  by (auto simp: derived_def drop_duplicates_def length_drop_dups)

subsection \<open>filter_non_english_reviews\<close>

lemma filter_non_english_reviews_df:
  assumes "filter_non_english_reviews s = Inr s'"
  shows "rows (df s') = filter (\<lambda>r. \<not> contains_amharic (cell_at r ''review_text'')) (rows (df s))"
    and "columns (df s') = columns (df s)"
    and "''review_text'' \<in> set (columns (df s))"
  using assms
  by (auto simp: filter_non_english_reviews_def Let_def split: if_splits)

lemma filter_non_english_reviews_ok:
  "''review_text'' \<in> set (columns (df s)) \<Longrightarrow> \<exists>s'. filter_non_english_reviews s = Inr s'"
  by (simp add: filter_non_english_reviews_def Let_def)

lemma filter_non_english_reviews_derived:
  "filter_non_english_reviews s = Inr s' \<Longrightarrow> derived K (df s) (df s')"
  by (rule derived_filter) (simp_all add: filter_non_english_reviews_df)

subsection \<open>validate_ratings\<close>

lemma validate_ratings_df:
  assumes "validate_ratings s = Inr s'"
  shows "rows (df s') = (if list_ex rating_invalid (rows (df s)) then filter rating_valid (rows (df s)) else rows (df s))"
    and "columns (df s') = columns (df s)"
    and "''rating'' \<in> set (columns (df s))"
    and "list_all (\<lambda>r. comparable (cell_at r ''rating'')) (rows (df s))"
  using assms
  by (auto simp: validate_ratings_def Let_def rating_valid_def [abs_def] rating_invalid_def [abs_def]
      list_ex_iff filter_empty_conv split: if_splits)

lemma validate_ratings_ok:
  "''rating'' \<in> set (columns (df s)) \<Longrightarrow>
   list_all (\<lambda>r. comparable (cell_at r ''rating'')) (rows (df s)) \<Longrightarrow>
   \<exists>s'. validate_ratings s = Inr s'"
  by (simp add: validate_ratings_def Let_def)

lemma validate_ratings_derived:
  assumes "validate_ratings s = Inr s'"
  shows "derived K (df s) (df s')"
  unfolding derived_def validate_ratings_df [OF assms] by auto


subsection \<open>\<open>prepare_final_output\<close>\<close>

lemma select_final_columns:
  "select_columns d (final_columns d) =
     Inr (d\<lparr>columns := final_columns d, rows := map (\<lambda>r. r |` set (final_columns d)) (rows d)\<rparr>)"
  by (auto simp: select_columns_def final_columns_def)

lemma sort_keys_present:
  "{''bank_code'', ''review_date''} \<subseteq> set (final_columns d) \<longleftrightarrow>
   ''bank_code'' \<in> set (columns d) \<and> ''review_date'' \<in> set (columns d)"
  by (auto simp: final_columns_def output_columns_def)

lemma prepare_final_output_KeyError:
  assumes "''bank_code'' \<notin> set (columns (df s)) \<or> ''review_date'' \<notin> set (columns (df s))"
  shows "prepare_final_output s = Inl KeyError"
  using assms sort_keys_present [of "df s"]
  unfolding prepare_final_output_def Let_def df_print final_columns_def [symmetric] select_final_columns
  by (auto simp: sort_values_def)

lemma prepare_final_output_ok:
  assumes "''bank_code'' \<in> set (columns (df s))" "''review_date'' \<in> set (columns (df s))"
  shows "\<exists>s'. prepare_final_output s = Inr s'"
  using assms sort_keys_present [of "df s"]
  unfolding prepare_final_output_def Let_def df_print final_columns_def [symmetric] select_final_columns
  by (auto simp: sort_values_def)

lemma prepare_final_output_df:
  assumes "prepare_final_output s = Inr s'"
  shows "columns (df s') = final_columns (df s)"
    and "rows (df s') = sort_by (rows_le [(''bank_code'', True), (''review_date'', False)])
           (map (\<lambda>r. r |` set (final_columns (df s))) (rows (df s)))"
    and "''bank_code'' \<in> set (columns (df s))" and "''review_date'' \<in> set (columns (df s))"
proof -
  show b: "''bank_code'' \<in> set (columns (df s))" and d: "''review_date'' \<in> set (columns (df s))"
    using assms prepare_final_output_KeyError [of s] by auto
  from b d sort_keys_present [of "df s"] assms
  show "columns (df s') = final_columns (df s)"
    and "rows (df s') = sort_by (rows_le [(''bank_code'', True), (''review_date'', False)])
           (map (\<lambda>r. r |` set (final_columns (df s))) (rows (df s)))"
    unfolding prepare_final_output_def Let_def df_print final_columns_def [symmetric] select_final_columns
    by (auto simp: sort_values_def split: if_splits)
qed

lemma final_columns_mem:
  "c \<in> set (final_columns d) \<longleftrightarrow> c \<in> set output_columns \<and> c \<in> set (columns d)"
  by (auto simp: final_columns_def)

text \<open>Every row of the final frame is a row of the input, cut down to the final columns.\<close>

lemma prepare_final_output_rows:
  assumes "prepare_final_output s = Inr s'" and "r' \<in> set (rows (df s'))"
  shows "\<exists>r \<in> set (rows (df s)). \<forall>c \<in> set output_columns \<inter> set (columns (df s)). cell_at r' c = cell_at r c"
  using assms(2) unfolding prepare_final_output_df [OF assms(1)]
  by (auto simp: final_columns_mem)

section \<open>Running the stages one after the other\<close>



lemma derived_runnable:
  assumes "derived K d d'" "''rating'' \<notin> K" "runnable d"
  shows "runnable d'"
  using assms unfolding derived_def runnable_def list_all_iff
  by (metis subset_trans)

lemma derived_column: "derived K d d' \<Longrightarrow> c \<in> set (columns d) \<Longrightarrow> c \<in> set (columns d')"
  unfolding derived_def by blast

lemma runnable_review_text: "runnable d \<Longrightarrow> ''review_text'' \<in> set (columns d)"
  and runnable_rating: "runnable d \<Longrightarrow> ''rating'' \<in> set (columns d)"
  by (auto simp: runnable_def critical_cols_def)

lemma derived_trans:
  assumes "derived K d d'" "derived K' d' d''"
  shows "derived (K \<union> K') d d''"
  unfolding derived_def
proof (intro conjI ballI)
  show "set (columns d) \<subseteq> set (columns d'')"
    using assms unfolding derived_def by blast
  show "length (rows d'') \<le> length (rows d)"
    using assms unfolding derived_def by linarith
  fix r'' assume "r'' \<in> set (rows d'')"
  with assms(2) obtain r' where r': "r' \<in> set (rows d')" "\<forall>c. c \<notin> K' \<longrightarrow> cell_at r'' c = cell_at r' c"
    unfolding derived_def by blast
  with assms(1) obtain r where r: "r \<in> set (rows d)" "\<forall>c. c \<notin> K \<longrightarrow> cell_at r' c = cell_at r c"
    unfolding derived_def by blast
  from r' r have "\<forall>c. c \<notin> K \<union> K' \<longrightarrow> cell_at r'' c = cell_at r c" by simp
  with r(1) show "\<exists>r \<in> set (rows d). \<forall>c. c \<notin> K \<union> K' \<longrightarrow> cell_at r'' c = cell_at r c" by blast
qed

lemma derived_touched: "derived K d d' \<Longrightarrow> K \<subseteq> touched \<Longrightarrow> derived touched d d'"
  by (rule derived_mono)

lemma derived_touched_trans: "derived touched d d' \<Longrightarrow> derived touched d' d'' \<Longrightarrow> derived touched d d''"
  using derived_trans [of touched d d' touched d''] by simp

lemma rating_untouched: "''rating'' \<notin> touched"
  by (simp add: touched_def)

text \<open>
  The stages before \<open>prepare_final_output\<close> run on every frame that has the critical
  columns and whose ratings can be compared with an integer.
\<close>

lemma stages_run:
  assumes "runnable (df s0)"
  shows "\<exists>s1 s2 s3 s5 s6. check_missing_data s0 = Inr s1 \<and> handle_missing_values s1 = Inr s2 \<and>
     clean_text (normalize_dates parse cr s2) = Inr s3 \<and>
     filter_non_english_reviews (remove_duplicates s3) = Inr s5 \<and>
     validate_ratings s5 = Inr s6 \<and> runnable (df s5) \<and> runnable (df s6) \<and>
     derived touched (df s0) (df s6)"
proof -
  from assms obtain s1 where s1: "check_missing_data s0 = Inr s1"
    using check_missing_data_ok [of s0] by (auto simp: runnable_def)
  then have d1: "df s1 = df s0" by (rule check_missing_data_df)
  with assms obtain s2 where s2: "handle_missing_values s1 = Inr s2"
    using handle_missing_values_ok [of s1] by (auto simp: runnable_def)
  have t2: "derived touched (df s0) (df s2)"
    using handle_missing_values_derived [OF s2] unfolding d1
    by (rule derived_touched) (simp add: touched_def)
  let ?n = "normalize_dates parse cr s2"
  have tn: "derived touched (df s2) (df ?n)"
    by (rule derived_touched [OF normalize_dates_derived]) (simp add: touched_def)
  have rn: "runnable (df ?n)"
    using derived_runnable [OF derived_touched_trans [OF t2 tn] rating_untouched assms] .
  then obtain s3 where s3: "clean_text ?n = Inr s3"
    using clean_text_ok [of ?n] runnable_review_text by blast
  have "derived touched (df ?n) (df s3)"
    by (rule derived_touched [OF clean_text_derived [OF s3]]) (simp add: touched_def)
  with derived_touched_trans [OF t2 tn] have t3: "derived touched (df s0) (df s3)"
    by (rule derived_touched_trans)
  let ?u = "remove_duplicates s3"
  have tu: "derived touched (df s0) (df ?u)"
    using t3 remove_duplicates_derived [of touched s3] by (rule derived_touched_trans)
  have ru: "runnable (df ?u)"
    using derived_runnable [OF tu rating_untouched assms] .
  then obtain s5 where s5: "filter_non_english_reviews ?u = Inr s5"
    using filter_non_english_reviews_ok [of ?u] runnable_review_text by blast
  have t5: "derived touched (df s0) (df s5)"
    using tu filter_non_english_reviews_derived [OF s5] by (rule derived_touched_trans)
  have r5: "runnable (df s5)"
    using derived_runnable [OF t5 rating_untouched assms] .
  then obtain s6 where s6: "validate_ratings s5 = Inr s6"
    using validate_ratings_ok [of s5] by (auto simp: runnable_def critical_cols_def)
  have t6: "derived touched (df s0) (df s6)"
    using t5 validate_ratings_derived [OF s6] by (rule derived_touched_trans)
  have "runnable (df s6)"
    using derived_runnable [OF t6 rating_untouched assms] .
  with s1 s2 s3 s5 s6 r5 t6 show ?thesis by blast
qed


lemma columns_drop_duplicates [simp]: "columns (drop_duplicates d) = columns d"
  by (simp add: drop_duplicates_def)

lemma normalize_dates_columns:
  "set (columns (df (normalize_dates parse cr s))) \<subseteq>
     set (columns (df s)) \<union> {''review_year'', ''review_month''}"
proof (cases "dates_fail parse (df s)")
  case True
  then show ?thesis by (auto simp: normalize_dates_fail)
next
  case False
  then show ?thesis by (simp add: normalize_dates_ok)
qed

lemma stages_columns:
  assumes "check_missing_data s0 = Inr s1" "handle_missing_values s1 = Inr s2"
    "clean_text (normalize_dates parse cr s2) = Inr s3"
    "filter_non_english_reviews (remove_duplicates s3) = Inr s5"
    "validate_ratings s5 = Inr s6"
  shows "set (columns (df s6)) \<subseteq>
     set (columns (df s0)) \<union> {''review_year'', ''review_month'', ''text_length''}"
proof -
  have "columns (df s6) = columns (df s3)"
    using validate_ratings_df(2) [OF assms(5)] filter_non_english_reviews_df(2) [OF assms(4)]
    by simp
  moreover have "set (columns (df s3)) = insert ''text_length'' (set (columns (df (normalize_dates parse cr s2))))"
    by (rule clean_text_df(2) [OF assms(3)])
  moreover have "columns (df s2) = columns (df s0)"
    using handle_missing_values_df(2) [OF assms(2)] check_missing_data_df [OF assms(1)] by simp
  ultimately show ?thesis
    using normalize_dates_columns [of parse cr s2] by auto
qed

lemma runnable_example: "runnable example_frame"
  by (simp add: runnable_def example_frame_def critical_cols_def comparable_def cell_at_def)

lemma runnable_without_bank_code: "runnable frame_without_bank_code"
  by (simp add: runnable_def frame_without_bank_code_def critical_cols_def comparable_def cell_at_def)

subsection \<open>\<open>process\<close> as the sequence of its stages\<close>

lemma load_data_Inr:
  "load_data (Inr d) (print (Msg ''STARTING DATA PREPROCESSING'' []) new_preprocessor) = (True, loaded d)"
  by (simp add: loaded_def load_data_def Let_def)

lemma df_loaded [simp]: "df (loaded d) = d"
  by (simp add: loaded_def load_data_def Let_def)

lemma stats_loaded [simp]: "stats (loaded d) = [''original_count'' \<mapsto> Count (length (rows d))]"
  by (simp add: loaded_def load_data_def Let_def new_preprocessor_def)

lemma process_stages:
  assumes "check_missing_data (loaded d) = Inr s1" "handle_missing_values s1 = Inr s2"
    "clean_text (normalize_dates parse cr s2) = Inr s3"
    "filter_non_english_reviews (remove_duplicates s3) = Inr s5"
    "validate_ratings s5 = Inr s6"
  shows "process parse cr (Inr d) written =
     (case prepare_final_output s6 of Inl e \<Rightarrow> Inl e
      | Inr s7 \<Rightarrow> (case save_data written s7 of (True, s) \<Rightarrow> Inr (True, generate_report s)
                    | (False, s) \<Rightarrow> Inr (False, s)))"
  using assms by (simp add: process_def load_data_Inr then_do_def split: sum.splits)

section \<open>Invariants are kept by stages that do not touch their columns\<close>

lemma derived_preserves:
  assumes "derived K d d'" "K \<inter> set C = {}" "reads_only C Q"
    and "set C \<subseteq> set (columns d) \<and> list_all Q (rows d)"
  shows "set C \<subseteq> set (columns d') \<and> list_all Q (rows d')"
proof
  show "set C \<subseteq> set (columns d')"
    using assms(1,4) unfolding derived_def by blast
  show "list_all Q (rows d')"
    unfolding list_all_iff
  proof
    fix r' assume "r' \<in> set (rows d')"
    with assms(1) obtain r where r: "r \<in> set (rows d)" "\<forall>c. c \<notin> K \<longrightarrow> cell_at r' c = cell_at r c"
      unfolding derived_def by blast
    from r(2) assms(2) have "\<forall>c \<in> set C. cell_at r' c = cell_at r c" by blast
    moreover from r(1) assms(4) have "Q r" by (simp add: list_all_iff)
    ultimately show "Q r'" using assms(3) unfolding reads_only_def by blast
  qed
qed

lemma final_preserves:
  assumes "prepare_final_output s = Inr s'" "set C \<subseteq> set output_columns" "reads_only C Q"
    and "set C \<subseteq> set (columns (df s)) \<and> list_all Q (rows (df s))"
  shows "set C \<subseteq> set (columns (df s')) \<and> list_all Q (rows (df s'))"
proof
  show "set C \<subseteq> set (columns (df s'))"
    using assms(2,4) by (auto simp: prepare_final_output_df(1) [OF assms(1)] final_columns_mem)
  show "list_all Q (rows (df s'))"
    unfolding list_all_iff
  proof
    fix r' assume "r' \<in> set (rows (df s'))"
    from prepare_final_output_rows [OF assms(1) this] obtain r where
      r: "r \<in> set (rows (df s))" "\<forall>c \<in> set output_columns \<inter> set (columns (df s)). cell_at r' c = cell_at r c"
      by blast
    from r(2) assms(2,4) have "\<forall>c \<in> set C. cell_at r' c = cell_at r c" by blast
    moreover from r(1) assms(4) have "Q r" by (simp add: list_all_iff)
    ultimately show "Q r'" using assms(3) unfolding reads_only_def by blast
  qed
qed

lemma reads_critical: "reads_only critical_cols critical_present"
  by (simp add: reads_only_def critical_present_def list_all_iff)



lemma reads_rating: "reads_only [''rating''] rating_in_range"
  by (simp add: reads_only_def rating_in_range_def)

lemma in_output_columns:
  "set critical_cols \<subseteq> set output_columns"
  "set [''review_text'', ''text_length''] \<subseteq> set output_columns"
  "set [''review_text''] \<subseteq> set output_columns"
  "set [''rating''] \<subseteq> set output_columns"
  by (simp_all add: critical_cols_def output_columns_def)

lemma critical_inv_derived:
  "derived K d d' \<Longrightarrow> K \<inter> set critical_cols = {} \<Longrightarrow> critical_inv d \<Longrightarrow> critical_inv d'"
  unfolding critical_inv_def by (rule derived_preserves [OF _ _ reads_critical])






lemma rating_inv_final:
  "prepare_final_output s = Inr s' \<Longrightarrow> rating_inv (df s) \<Longrightarrow> rating_inv (df s')"
  unfolding rating_inv_def by (rule final_preserves [OF _ in_output_columns(4) reads_rating])

lemma critical_inv_handle_missing_values:
  assumes "handle_missing_values s = Inr s'"
  shows "critical_inv (df s')"
  unfolding critical_inv_def handle_missing_values_df(1,2) [OF assms]
  using handle_missing_values_df(3) [OF assms]
  by (auto simp: list_all_iff critical_present_def critical_cols_def cell_at_fill_defaults)

lemma critical_inv_clean_text:
  assumes "critical_inv (df s)" "clean_text s = Inr s'"
  shows "critical_inv (df s')"
  using assms(1) unfolding critical_inv_def clean_text_df(1,2) [OF assms(2)]
  by (auto simp: list_all_iff critical_present_def critical_cols_def with_length_def clean_row_def)




lemma rating_in_range_iff:
  "cell_at r ''rating'' \<noteq> Null \<Longrightarrow> comparable (cell_at r ''rating'') \<Longrightarrow>
   rating_valid r = rating_in_range r \<and> rating_invalid r = (\<not> rating_in_range r)"
  by (auto simp: rating_valid_def rating_invalid_def rating_in_range_def comparable_def
      cmp_ge_def cmp_le_def cmp_lt_def cmp_gt_def split: cell.splits)

section \<open>A complete run\<close>

text \<open>
  All stages run on a frame that has the critical columns and the two sort columns and
  whose ratings can be compared with an integer.
\<close>

lemma pipeline_run:
  assumes "runnable (df s0)" "''bank_code'' \<in> set (columns (df s0))"
    "''review_date'' \<in> set (columns (df s0))"
  shows "\<exists>s1 s2 s3 s5 s6 s7. check_missing_data s0 = Inr s1 \<and> handle_missing_values s1 = Inr s2 \<and>
     clean_text (normalize_dates parse cr s2) = Inr s3 \<and>
     filter_non_english_reviews (remove_duplicates s3) = Inr s5 \<and>
     validate_ratings s5 = Inr s6 \<and> prepare_final_output s6 = Inr s7 \<and>
     critical_inv (df s5) \<and> list_all (\<lambda>r. is_int (cell_at r ''rating'')) (rows (df s5))"
proof -
  from stages_run [OF assms(1), of parse cr] obtain s1 s2 s3 s5 s6 where run:
    "check_missing_data s0 = Inr s1" "handle_missing_values s1 = Inr s2"
    "clean_text (normalize_dates parse cr s2) = Inr s3"
    "filter_non_english_reviews (remove_duplicates s3) = Inr s5"
    "validate_ratings s5 = Inr s6"
    and r5: "runnable (df s5)" and t6: "derived touched (df s0) (df s6)"
    by blast
  from t6 assms(2,3) obtain s7 where s7: "prepare_final_output s6 = Inr s7"
    using prepare_final_output_ok [of s6] derived_column by blast
  have "critical_inv (df s2)"
    using run(2) by (rule critical_inv_handle_missing_values)
  then have "critical_inv (df (normalize_dates parse cr s2))"
    using normalize_dates_derived by (rule critical_inv_derived [rotated 2]) (simp add: critical_cols_def)
  then have "critical_inv (df s3)"
    using run(3) by (rule critical_inv_clean_text)
  then have "critical_inv (df (remove_duplicates s3))"
    using remove_duplicates_derived [of "{}"] by (rule critical_inv_derived [rotated 2]) simp
  then have c5: "critical_inv (df s5)"
    using filter_non_english_reviews_derived [OF run(4), of "{}"]
    by (rule critical_inv_derived [rotated 2]) simp
  have "list_all (\<lambda>r. is_int (cell_at r ''rating'')) (rows (df s5))"
    using c5 r5
    by (auto simp: critical_inv_def runnable_def list_all_iff critical_present_def critical_cols_def
        comparable_def is_int_def split: cell.splits)
  with run s7 c5 show ?thesis by blast
qed

lemma row_eq_set: "row_eq cols r r' \<longleftrightarrow> (\<forall>c \<in> set cols. cell_at r c = cell_at r' c)"
  by (simp add: row_eq_def list_all_iff)

text \<open>
  The stages on the example: of the seven records, the one without rating, the one with
  whitespace only, the repeated one, the one in Ethiopic script and the one rated 7 are
  dropped; the two that remain come out ordered by bank, with the text cleaned, its length
  and the parts of the date.
\<close>

lemma example_final_table:
  assumes "df s0 = example_frame" "check_missing_data s0 = Inr s1" "handle_missing_values s1 = Inr s2"
    "clean_text (normalize_dates example_parse example_range s2) = Inr s3"
    "filter_non_english_reviews (remove_duplicates s3) = Inr s5"
    "validate_ratings s5 = Inr s6" "prepare_final_output s6 = Inr s7"
  shows "map (\<lambda>r. map (cell_at r) [''review_text'', ''rating'', ''review_date'', ''review_year'',
            ''review_month'', ''bank_code'', ''bank_name'', ''text_length'']) (rows (df s7)) =
     [[StrV [111, 107], IntV 3, DateV 2024 2 11, IntV 2024, IntV 2, StrV [66, 79, 65],
       StrV [66, 79, 65], IntV 2],
      [StrV [71, 111, 111, 100, 32, 97, 112, 112], IntV 5, DateV 2024 1 5, IntV 2024, IntV 1,
       StrV [67, 66, 69], StrV [67, 66, 69], IntV 8]]"
proof -
  have c1: "columns (df s1) = columns example_frame" and r1: "rows (df s1) = rows example_frame"
    using check_missing_data_df [OF assms(2)] assms(1) by simp_all
  note h = handle_missing_values_df [OF assms(3)]
  have nf: "\<not> dates_fail example_parse (df s2)"
    unfolding dates_fail_def h r1 c1
    by (simp add: example_frame_def critical_present_def critical_cols_def fill_defaults_def
        fill1_def cell_at_def to_datetime_def example_parse_def)
  note n = normalize_dates_ok [OF nf, of example_range]
  note c = clean_text_df [OF assms(4)]
  note f = filter_non_english_reviews_df [OF assms(5)]
  note v = validate_ratings_df [OF assms(6)]
  note p = prepare_final_output_df [OF assms(7)]
  have cols3: "set (columns (df s3)) = {''review_text'', ''rating'', ''review_date'', ''bank_code'',
      ''bank_name'', ''review_year'', ''review_month'', ''text_length''}"
    unfolding c(2) n(2) h(2) c1 by (auto simp: example_frame_def)
  have cols6: "set (columns (df s6)) = set (columns (df s3))"
    unfolding v(2) f(2) by simp
  have rows3: "rows (df s3) = map with_length (filter (\<lambda>r. gt0 (str_len (cell_at r ''review_text'')))
     (map clean_row (map (with_dates example_parse) (map (fill_defaults (columns example_frame))
        (filter critical_present (rows example_frame))))))"
    unfolding c(1) n(1) h(1) r1 c1 ..
  show ?thesis
    unfolding p(2) final_columns_def cols6 v(1) f(1) remove_duplicates_df drop_duplicates_def
    apply (simp add: rows3 cols3 row_eq_set)
    apply (simp add: row_eq_set cols3 example_frame_def critical_present_def critical_cols_def fill_defaults_def
        fill1_def with_dates_def clean_row_def with_length_def cell_at_def to_datetime_def
        example_parse_def Let_def dt_year_def dt_month_def num_def str_len_def gt0_def
        clean_review_text_def strip_def is_space_def contains_amharic_def
        rating_invalid_def rating_valid_def cmp_lt_def cmp_gt_def cmp_ge_def cmp_le_def
        output_columns_def sort_by_def key_le_def cell_key_def restrict_map_def)
    done
qed

lemma example_final_count:
  assumes "df s0 = example_frame" "check_missing_data s0 = Inr s1" "handle_missing_values s1 = Inr s2"
    "clean_text (normalize_dates example_parse example_range s2) = Inr s3"
    "filter_non_english_reviews (remove_duplicates s3) = Inr s5"
    "validate_ratings s5 = Inr s6" "prepare_final_output s6 = Inr s7"
  shows "length (rows (df s7)) = 2"
  using arg_cong [OF example_final_table [OF assms], of length] by simp


lemma example_run:
  "\<exists>s1 s2 s3 s5 s6 s7. check_missing_data example_state = Inr s1 \<and>
     handle_missing_values s1 = Inr s2 \<and>
     clean_text (normalize_dates example_parse example_range s2) = Inr s3 \<and>
     filter_non_english_reviews (remove_duplicates s3) = Inr s5 \<and>
     validate_ratings s5 = Inr s6 \<and> prepare_final_output s6 = Inr s7 \<and>
     critical_inv (df s5) \<and> list_all (\<lambda>r. is_int (cell_at r ''rating'')) (rows (df s5)) \<and>
     length (rows (df s7)) = 2"
proof -
  have "\<exists>s1 s2 s3 s5 s6 s7. check_missing_data example_state = Inr s1 \<and>
     handle_missing_values s1 = Inr s2 \<and>
     clean_text (normalize_dates example_parse example_range s2) = Inr s3 \<and>
     filter_non_english_reviews (remove_duplicates s3) = Inr s5 \<and>
     validate_ratings s5 = Inr s6 \<and> prepare_final_output s6 = Inr s7 \<and>
     critical_inv (df s5) \<and> list_all (\<lambda>r. is_int (cell_at r ''rating'')) (rows (df s5))"
    by (rule pipeline_run)
      (simp_all add: example_state_def runnable_example, simp_all add: example_frame_def)
  then obtain s1 s2 s3 s5 s6 s7 where run:
    "check_missing_data example_state = Inr s1" "handle_missing_values s1 = Inr s2"
    "clean_text (normalize_dates example_parse example_range s2) = Inr s3"
    "filter_non_english_reviews (remove_duplicates s3) = Inr s5"
    "validate_ratings s5 = Inr s6" "prepare_final_output s6 = Inr s7"
    and inv: "critical_inv (df s5)" "list_all (\<lambda>r. is_int (cell_at r ''rating'')) (rows (df s5))"
    by blast
  have "df example_state = example_frame" by (simp add: example_state_def)
  from example_final_count [OF this run] have "length (rows (df s7)) = 2" .
  with run inv show ?thesis by blast
qed

section \<open>Record counts and counters\<close>



lemma derived_length: "derived K d d' \<Longrightarrow> length (rows d') \<le> length (rows d)"
  by (simp add: derived_def)

lemma prepare_final_output_length:
  "prepare_final_output s = Inr s' \<Longrightarrow> length (rows (df s')) = length (rows (df s))"
  by (simp add: prepare_final_output_df(2))

text \<open>The counter \<open>original_count\<close> is written by \<open>load_data\<close> only.\<close>

lemma original_count_check_missing_data:
  "check_missing_data s = Inr s' \<Longrightarrow> stats s' ''original_count'' = stats s ''original_count''"
  by (erule check_missing_data_stats) simp

lemma original_count_handle_missing_values:
  "handle_missing_values s = Inr s' \<Longrightarrow> stats s' ''original_count'' = stats s ''original_count''"
  by (auto simp: handle_missing_values_def Let_def split: sum.splits if_splits)

lemma original_count_clean_text:
  "clean_text s = Inr s' \<Longrightarrow> stats s' ''original_count'' = stats s ''original_count''"
  by (auto simp: clean_text_def Let_def split: if_splits)

lemma original_count_remove_duplicates:
  "stats (remove_duplicates s) ''original_count'' = stats s ''original_count''"
  by (simp add: remove_duplicates_def Let_def)

lemma original_count_filter_non_english_reviews:
  "filter_non_english_reviews s = Inr s' \<Longrightarrow>
   stats s' ''original_count'' = stats s ''original_count''"
  by (auto simp: filter_non_english_reviews_def Let_def split: if_splits)

lemma original_count_validate_ratings:
  "validate_ratings s = Inr s' \<Longrightarrow> stats s' ''original_count'' = stats s ''original_count''"
  by (auto simp: validate_ratings_def Let_def split: if_splits)

lemma original_count_prepare_final_output:
  "prepare_final_output s = Inr s' \<Longrightarrow> stats s' ''original_count'' = stats s ''original_count''"
  by (auto simp: prepare_final_output_def Let_def split: sum.splits)

lemma df_generate_report [simp]: "df (generate_report s) = df s"
  by (simp add: generate_report_def Let_def)

lemma stats_generate_report [simp]: "stats (generate_report s) = stats s"
  by (simp add: generate_report_def Let_def)

lemma save_data_written:
  "save_data True s = (True, s') \<Longrightarrow>
     df s' = df s \<and> stats s' = (stats s)(''final_count'' \<mapsto> Count (length (rows (df s))))"
  by (auto simp: save_data_def Let_def)

lemma save_data_result:
  "save_data written s = (b, s') \<Longrightarrow> b = written \<and> df s' = df s"
  by (auto simp: save_data_def Let_def split: if_splits)

lemma process_Inr:
  assumes "process parse cr (Inr d) written = Inr (b, s')"
  shows "\<exists>s1 s2 s3 s5 s6 s7 s8. check_missing_data (loaded d) = Inr s1 \<and>
     handle_missing_values s1 = Inr s2 \<and>
     clean_text (normalize_dates parse cr s2) = Inr s3 \<and>
     filter_non_english_reviews (remove_duplicates s3) = Inr s5 \<and>
     validate_ratings s5 = Inr s6 \<and> prepare_final_output s6 = Inr s7 \<and>
     save_data written s7 = (b, s8) \<and> s' = (if b then generate_report s8 else s8)"
  using assms
  by (auto simp: process_def load_data_Inr then_do_def split: sum.splits prod.splits bool.splits)

lemma stages_length:
  assumes "check_missing_data s0 = Inr s1" "handle_missing_values s1 = Inr s2"
    "clean_text (normalize_dates parse cr s2) = Inr s3"
    "filter_non_english_reviews (remove_duplicates s3) = Inr s5"
    "validate_ratings s5 = Inr s6" "prepare_final_output s6 = Inr s7"
  shows "length (rows (df s7)) \<le> length (rows (df s0))"
proof -
  have "length (rows (df s7)) = length (rows (df s6))"
    using assms(6) by (rule prepare_final_output_length)
  also have "\<dots> \<le> length (rows (df s5))"
    using validate_ratings_derived [OF assms(5), of "{}"] by (rule derived_length)
  also have "\<dots> \<le> length (rows (df (remove_duplicates s3)))"
    using filter_non_english_reviews_derived [OF assms(4), of "{}"] by (rule derived_length)
  also have "\<dots> \<le> length (rows (df s3))"
    using remove_duplicates_derived [of "{}" s3] by (rule derived_length)
  also have "\<dots> \<le> length (rows (df (normalize_dates parse cr s2)))"
    using clean_text_derived [OF assms(3)] by (rule derived_length)
  also have "\<dots> \<le> length (rows (df s2))"
    using normalize_dates_derived by (rule derived_length)
  also have "\<dots> \<le> length (rows (df s1))"
    using handle_missing_values_derived [OF assms(2)] by (rule derived_length)
  also have "\<dots> = length (rows (df s0))"
    using check_missing_data_df [OF assms(1)] by simp
  finally show ?thesis .
qed

lemma stages_original_count:
  assumes "check_missing_data s0 = Inr s1" "handle_missing_values s1 = Inr s2"
    "clean_text (normalize_dates parse cr s2) = Inr s3"
    "filter_non_english_reviews (remove_duplicates s3) = Inr s5"
    "validate_ratings s5 = Inr s6" "prepare_final_output s6 = Inr s7"
  shows "stats s7 ''original_count'' = stats s0 ''original_count''"
  using original_count_check_missing_data [OF assms(1)]
    original_count_handle_missing_values [OF assms(2)]
    original_count_clean_text [OF assms(3)]
    original_count_remove_duplicates [of s3]
    original_count_filter_non_english_reviews [OF assms(4)]
    original_count_validate_ratings [OF assms(5)]
    original_count_prepare_final_output [OF assms(6)]
  by simp

lemma process_counts:
  assumes "process parse cr (Inr d) written = Inr (b, s')"
  shows "length (rows (df s')) \<le> length (rows d)"
    and "b \<Longrightarrow> stats_get (stats s') ''original_count'' 0 = length (rows d)"
    and "b \<Longrightarrow> stats_get (stats s') ''original_count'' 1 = length (rows d)"
    and "b \<Longrightarrow> stats_get (stats s') ''final_count'' 0 = length (rows (df s'))"
proof -
  from process_Inr [OF assms] obtain s1 s2 s3 s5 s6 s7 s8 where run:
    "check_missing_data (loaded d) = Inr s1" "handle_missing_values s1 = Inr s2"
    "clean_text (normalize_dates parse cr s2) = Inr s3"
    "filter_non_english_reviews (remove_duplicates s3) = Inr s5"
    "validate_ratings s5 = Inr s6" "prepare_final_output s6 = Inr s7"
    and save: "save_data written s7 = (b, s8)" and s': "s' = (if b then generate_report s8 else s8)"
    by blast
  have df': "df s' = df s7"
    using save_data_result [OF save] s' by simp
  from stages_length [OF run] show "length (rows (df s')) \<le> length (rows d)"
    by (simp add: df')
  have oc: "stats s7 ''original_count'' = Some (Count (length (rows d)))"
    using stages_original_count [OF run] by simp
  {
    assume b
    with save have "save_data True s7 = (True, s8)"
      using save_data_result [OF save] by simp
    from save_data_written [OF this] s' \<open>b\<close>
    have st: "stats s' = (stats s7)(''final_count'' \<mapsto> Count (length (rows (df s7))))"
      by simp
    show "stats_get (stats s') ''original_count'' 0 = length (rows d)"
      and "stats_get (stats s') ''original_count'' 1 = length (rows d)"
      and "stats_get (stats s') ''final_count'' 0 = length (rows (df s'))"
      by (simp_all add: st stats_get_def oc df')
  }
qed

lemma retention_at_most_100:
  assumes "stats_get st ''final_count'' 0 \<le> stats_get st ''original_count'' 1"
  shows "retention_rate st \<le> 100"
proof -
  let ?f = "real (stats_get st ''final_count'' 0)"
  let ?o = "real (stats_get st ''original_count'' 1)"
  from assms have "?f \<le> ?o" by simp
  then have "?f / ?o \<le> 1"
    by (auto simp: divide_le_eq_1)
  then have "?f / ?o * 100 \<le> 1 * 100"
    by (rule mult_right_mono) simp
  then show ?thesis by (simp add: retention_rate_def)
qed

lemma save_data_True: "\<exists>s'. save_data True s = (True, s')"
  by (simp add: save_data_def Let_def)

lemma example_process:
  "\<exists>s1 s2 s3 s5 s6 s7 s'. check_missing_data (loaded example_frame) = Inr s1 \<and>
     handle_missing_values s1 = Inr s2 \<and>
     clean_text (normalize_dates example_parse example_range s2) = Inr s3 \<and>
     filter_non_english_reviews (remove_duplicates s3) = Inr s5 \<and>
     validate_ratings s5 = Inr s6 \<and> prepare_final_output s6 = Inr s7 \<and>
     process example_parse example_range (Inr example_frame) True = Inr (True, s') \<and>
     df s' = df s7 \<and> length (rows (df s7)) = 2"
proof -
  have "\<exists>s1 s2 s3 s5 s6 s7. check_missing_data (loaded example_frame) = Inr s1 \<and>
     handle_missing_values s1 = Inr s2 \<and>
     clean_text (normalize_dates example_parse example_range s2) = Inr s3 \<and>
     filter_non_english_reviews (remove_duplicates s3) = Inr s5 \<and>
     validate_ratings s5 = Inr s6 \<and> prepare_final_output s6 = Inr s7 \<and>
     critical_inv (df s5) \<and> list_all (\<lambda>r. is_int (cell_at r ''rating'')) (rows (df s5))"
    by (rule pipeline_run) (simp_all add: runnable_example, simp_all add: example_frame_def)
  then obtain s1 s2 s3 s5 s6 s7 where run:
    "check_missing_data (loaded example_frame) = Inr s1" "handle_missing_values s1 = Inr s2"
    "clean_text (normalize_dates example_parse example_range s2) = Inr s3"
    "filter_non_english_reviews (remove_duplicates s3) = Inr s5"
    "validate_ratings s5 = Inr s6" and fin: "prepare_final_output s6 = Inr s7"
    by blast
  from save_data_True obtain s8 where s8: "save_data True s7 = (True, s8)" by blast
  with process_stages [OF run, of True] fin
  have "process example_parse example_range (Inr example_frame) True = Inr (True, generate_report s8)"
    by simp
  moreover have "df (generate_report s8) = df s7"
    using save_data_result [OF s8] by simp
  moreover have "length (rows (df s7)) = 2"
    using df_loaded run fin by (rule example_final_count)
  ultimately show ?thesis using run fin by blast
qed

section \<open>The claims\<close>

text \<open>
  Claim C1. The claim says that \<open>prepare_final_output\<close> completes on every dataset that
  has the critical columns, also when an optional column such as \<open>bank_code\<close> is absent.
  The projection does leave absent columns out, but the sort that follows names
  \<open>bank_code\<close> and \<open>review_date\<close> unconditionally. On a frame with the critical
  columns and \<open>review_date\<close> but without \<open>bank_code\<close>, every stage before the Finalizer
  returns, the Finalizer raises \<open>KeyError\<close>, and so does \<open>process\<close>.
\<close>

theorem prepare_final_output_raises_without_bank_code:
  "(\<exists>s1 s2 s3 s5 s6.
      check_missing_data (loaded frame_without_bank_code) = Inr s1 \<and>
      handle_missing_values s1 = Inr s2 \<and>
      clean_text (normalize_dates example_parse example_range s2) = Inr s3 \<and>
      filter_non_english_reviews (remove_duplicates s3) = Inr s5 \<and>
      validate_ratings s5 = Inr s6 \<and>
      prepare_final_output s6 = Inl KeyError) \<and>
   process example_parse example_range (Inr frame_without_bank_code) True = Inl KeyError"
proof -
  have "runnable (df (loaded frame_without_bank_code))"
    by (simp add: runnable_without_bank_code)
  from stages_run [OF this, of example_parse example_range]
  obtain s1 s2 s3 s5 s6 where run:
    "check_missing_data (loaded frame_without_bank_code) = Inr s1"
    "handle_missing_values s1 = Inr s2"
    "clean_text (normalize_dates example_parse example_range s2) = Inr s3"
    "filter_non_english_reviews (remove_duplicates s3) = Inr s5"
    "validate_ratings s5 = Inr s6"
    by blast
  have "''bank_code'' \<notin> set (columns (df s6))"
    using stages_columns [OF run] by (auto simp: frame_without_bank_code_def)
  then have ke: "prepare_final_output s6 = Inl KeyError"
    by (simp add: prepare_final_output_KeyError)
  with process_stages [OF run, of True] have "process example_parse example_range (Inr frame_without_bank_code) True = Inl KeyError"
    by simp
  with run ke show ?thesis by blast
qed






text \<open>
  Claim C5. \<open>remove_duplicates\<close> keeps exactly the records at the positions \<open>i\<close> before
  which no record equal in every column occurs, in their original order; the columns are
  unchanged, and no two different positions of the result hold records equal in every
  column.
\<close>

theorem remove_duplicates_keeps_first_occurrences:
  "rows (df (remove_duplicates s)) =
      nths (rows (df s))
        {i. \<not> (\<exists>j<i. row_eq (columns (df s)) (rows (df s) ! j) (rows (df s) ! i))} \<and>
   columns (df (remove_duplicates s)) = columns (df s) \<and>
   (\<forall>i j. i < j \<and> j < length (rows (df (remove_duplicates s))) \<longrightarrow>
       \<not> row_eq (columns (df s)) (rows (df (remove_duplicates s)) ! i)
                                  (rows (df (remove_duplicates s)) ! j))"
proof (intro conjI allI impI)
  show "rows (df (remove_duplicates s)) =
      nths (rows (df s))
        {i. \<not> (\<exists>j<i. row_eq (columns (df s)) (rows (df s) ! j) (rows (df s) ! i))}"
    using drop_dups_nths [of "columns (df s)" "[]" "rows (df s)"]
    by (simp add: drop_duplicates_def)
  show "columns (df (remove_duplicates s)) = columns (df s)"
    by simp
  fix i j
  assume "i < j \<and> j < length (rows (df (remove_duplicates s)))"
  then show "\<not> row_eq (columns (df s)) (rows (df (remove_duplicates s)) ! i)
                                  (rows (df (remove_duplicates s)) ! j)"
    by (simp add: drop_duplicates_def drop_dups_distinct)
qed

lemma example_deduplicated:
  "length (rows (df (remove_duplicates example_state))) = 6"
  by (simp add: drop_duplicates_def example_state_def example_frame_def row_eq_def cell_at_def)

text \<open>An instance: the second record of the example repeats the first and is dropped.\<close>

theorem remove_duplicates_example:
  "length (rows (df (remove_duplicates example_state))) = 6 \<and>
   \<not> row_eq (columns (df example_state)) (rows (df (remove_duplicates example_state)) ! 0)
                                  (rows (df (remove_duplicates example_state)) ! 1)"
proof -
  have "\<forall>i j. i < j \<and> j < length (rows (df (remove_duplicates example_state))) \<longrightarrow>
       \<not> row_eq (columns (df example_state)) (rows (df (remove_duplicates example_state)) ! i)
                                  (rows (df (remove_duplicates example_state)) ! j)"
    using remove_duplicates_keeps_first_occurrences [of example_state] by blast
  then have "0 < (1::nat) \<and> 1 < length (rows (df (remove_duplicates example_state))) \<longrightarrow>
       \<not> row_eq (columns (df example_state)) (rows (df (remove_duplicates example_state)) ! 0)
                                  (rows (df (remove_duplicates example_state)) ! 1)"
    by blast
  with example_deduplicated show ?thesis by simp
qed







text \<open>
  Claim C8. \<open>validate_ratings\<close> runs whenever the frame has a \<open>rating\<close> column of
  integers. On a frame without missing ratings (as every frame after
  \<open>handle_missing_values\<close> is) it keeps, in order, exactly the records whose rating is an
  integer from 1 to 5 and leaves the columns alone; afterwards every rating is in that range,
  and \<open>prepare_final_output\<close> keeps it so.
\<close>

theorem rating_validator_keeps_one_to_five:
  "(''rating'' \<in> set (columns (df s)) \<and> list_all (\<lambda>r. is_int (cell_at r ''rating'')) (rows (df s)) \<longrightarrow>
      (\<exists>s'. validate_ratings s = Inr s')) \<and>
   (validate_ratings s = Inr s' \<and> list_all (\<lambda>r. cell_at r ''rating'' \<noteq> Null) (rows (df s)) \<longrightarrow>
      rows (df s') = filter rating_in_range (rows (df s)) \<and>
      columns (df s') = columns (df s) \<and> rating_inv (df s')) \<and>
   (rating_inv (df s) \<and> prepare_final_output s = Inr s' \<longrightarrow> rating_inv (df s'))"
proof (intro conjI impI)
  assume "''rating'' \<in> set (columns (df s)) \<and> list_all (\<lambda>r. is_int (cell_at r ''rating'')) (rows (df s))"
  then have "''rating'' \<in> set (columns (df s))"
    and "list_all (\<lambda>r. comparable (cell_at r ''rating'')) (rows (df s))"
    by (auto simp: list_all_iff is_int_def comparable_def split: cell.splits)
  then show "\<exists>s'. validate_ratings s = Inr s'"
    by (rule validate_ratings_ok)
next
  assume h: "validate_ratings s = Inr s' \<and> list_all (\<lambda>r. cell_at r ''rating'' \<noteq> Null) (rows (df s))"
  then have run: "validate_ratings s = Inr s'" by simp
  note vd = validate_ratings_df [OF run]
  have iff: "rating_valid r = rating_in_range r \<and> rating_invalid r = (\<not> rating_in_range r)"
    if "r \<in> set (rows (df s))" for r
    using that h vd(4) by (intro rating_in_range_iff) (auto simp: list_all_iff)
  show rows: "rows (df s') = filter rating_in_range (rows (df s))"
  proof (cases "list_ex rating_invalid (rows (df s))")
    case True
    have "filter rating_valid (rows (df s)) = filter rating_in_range (rows (df s))"
      using iff by (intro filter_cong) auto
    with True show ?thesis by (simp add: vd(1))
  next
    case False
    then have "\<forall>r \<in> set (rows (df s)). rating_in_range r"
      using iff by (auto simp: list_ex_iff)
    then have "filter rating_in_range (rows (df s)) = rows (df s)" by simp
    with False show ?thesis by (simp add: vd(1))
  qed
  show "columns (df s') = columns (df s)" by (rule vd(2))
  show "rating_inv (df s')"
    unfolding rating_inv_def rows vd(2) using vd(3) by (simp add: list_all_iff)
next
  show "rating_inv (df s')" if "rating_inv (df s) \<and> prepare_final_output s = Inr s'"
    using that rating_inv_final by blast
qed

text \<open>An instance: the run of all stages on the example.\<close>

theorem rating_validator_example:
  "\<exists>s1 s2 s3 s5 s6 s7. check_missing_data example_state = Inr s1 \<and>
     handle_missing_values s1 = Inr s2 \<and>
     clean_text (normalize_dates example_parse example_range s2) = Inr s3 \<and>
     filter_non_english_reviews (remove_duplicates s3) = Inr s5 \<and>
     validate_ratings s5 = Inr s6 \<and> prepare_final_output s6 = Inr s7 \<and>
     rows (df s6) = filter rating_in_range (rows (df s5)) \<and>
     rating_inv (df s6) \<and> rating_inv (df s7) \<and>
     length (rows (df s7)) = 2"
proof -
  from example_run obtain s1 s2 s3 s5 s6 s7 where run:
    "check_missing_data example_state = Inr s1" "handle_missing_values s1 = Inr s2"
    "clean_text (normalize_dates example_parse example_range s2) = Inr s3"
    "filter_non_english_reviews (remove_duplicates s3) = Inr s5"
    "validate_ratings s5 = Inr s6" "prepare_final_output s6 = Inr s7"
    and two: "length (rows (df s7)) = 2"
    and ints: "list_all (\<lambda>r. is_int (cell_at r ''rating'')) (rows (df s5))"
    by blast
  have "''rating'' \<in> set (columns (df s5))"
    using validate_ratings_df(3) [OF run(5)] .
  with ints have "\<exists>s'. validate_ratings s5 = Inr s'"
    using rating_validator_keeps_one_to_five [of s5] by blast
  from ints have nn: "list_all (\<lambda>r. cell_at r ''rating'' \<noteq> Null) (rows (df s5))"
    by (auto simp: list_all_iff is_int_def)
  have i6: "rows (df s6) = filter rating_in_range (rows (df s5)) \<and> rating_inv (df s6)"
    using rating_validator_keeps_one_to_five [of s5 s6] run(5) nn by blast
  have i7: "rating_inv (df s7)"
    using rating_validator_keeps_one_to_five [of s6 s7] i6 run(6) by blast
  from run i6 i7 two show ?thesis by blast
qed

text \<open>
  Claim C10. No stage adds a record: the frame that \<open>check_missing_data\<close>,
  \<open>handle_missing_values\<close>, \<open>normalize_dates\<close>, \<open>clean_text\<close>, \<open>remove_duplicates\<close>,
  \<open>filter_non_english_reviews\<close>, \<open>validate_ratings\<close> or \<open>prepare_final_output\<close> returns has
  at most as many records as the frame it was given. So the frame that \<open>process\<close> ends
  with has at most as many records as the frame that was loaded, and when \<open>process\<close>
  returns \<open>True\<close> the counter \<open>final_count\<close> is at most \<open>original_count\<close> and the retention
  rate of the report is at most 100.
\<close>

theorem record_count_never_grows:
  "(check_missing_data s = Inr s' \<longrightarrow> length (rows (df s')) \<le> length (rows (df s))) \<and>
   (handle_missing_values s = Inr s' \<longrightarrow> length (rows (df s')) \<le> length (rows (df s))) \<and>
   length (rows (df (normalize_dates parse col_range s))) \<le> length (rows (df s)) \<and>
   (clean_text s = Inr s' \<longrightarrow> length (rows (df s')) \<le> length (rows (df s))) \<and>
   length (rows (df (remove_duplicates s))) \<le> length (rows (df s)) \<and>
   (filter_non_english_reviews s = Inr s' \<longrightarrow> length (rows (df s')) \<le> length (rows (df s))) \<and>
   (validate_ratings s = Inr s' \<longrightarrow> length (rows (df s')) \<le> length (rows (df s))) \<and>
   (prepare_final_output s = Inr s' \<longrightarrow> length (rows (df s')) \<le> length (rows (df s))) \<and>
   (process parse col_range (Inr d) written = Inr (b, s') \<longrightarrow>
      length (rows (df s')) \<le> length (rows d) \<and>
      (b \<longrightarrow> stats_get (stats s') ''original_count'' 0 = length (rows d) \<and>
            stats_get (stats s') ''final_count'' 0 = length (rows (df s')) \<and>
            stats_get (stats s') ''final_count'' 0 \<le> stats_get (stats s') ''original_count'' 0 \<and>
            retention_rate (stats s') \<le> 100))"
proof (intro conjI impI)
  show "length (rows (df s')) \<le> length (rows (df s))" if "check_missing_data s = Inr s'"
    using check_missing_data_df [OF that] by simp
  show "length (rows (df s')) \<le> length (rows (df s))" if "handle_missing_values s = Inr s'"
    using handle_missing_values_derived [OF that] by (rule derived_length)
  show "length (rows (df (normalize_dates parse col_range s))) \<le> length (rows (df s))"
    using normalize_dates_derived by (rule derived_length)
  show "length (rows (df s')) \<le> length (rows (df s))" if "clean_text s = Inr s'"
    using clean_text_derived [OF that] by (rule derived_length)
  show "length (rows (df (remove_duplicates s))) \<le> length (rows (df s))"
    using remove_duplicates_derived [of "{}"] by (rule derived_length)
  show "length (rows (df s')) \<le> length (rows (df s))" if "filter_non_english_reviews s = Inr s'"
    using filter_non_english_reviews_derived [OF that, of "{}"] by (rule derived_length)
  show "length (rows (df s')) \<le> length (rows (df s))" if "validate_ratings s = Inr s'"
    using validate_ratings_derived [OF that, of "{}"] by (rule derived_length)
  show "length (rows (df s')) \<le> length (rows (df s))" if "prepare_final_output s = Inr s'"
    using prepare_final_output_length [OF that] by simp
next
  assume p: "process parse col_range (Inr d) written = Inr (b, s')"
  note pc = process_counts [OF p]
  show le: "length (rows (df s')) \<le> length (rows d)" by (rule pc(1))
  assume b
  show oc: "stats_get (stats s') ''original_count'' 0 = length (rows d)"
    using \<open>b\<close> by (rule pc(2))
  show fc: "stats_get (stats s') ''final_count'' 0 = length (rows (df s'))"
    using \<open>b\<close> by (rule pc(4))
  show "stats_get (stats s') ''final_count'' 0 \<le> stats_get (stats s') ''original_count'' 0"
    using le oc fc by simp
  show "retention_rate (stats s') \<le> 100"
    using le fc pc(3) [OF \<open>b\<close>] by (intro retention_at_most_100) simp
qed

text \<open>An instance: \<open>process\<close> on the example, stage by stage.\<close>

theorem record_count_example:
  "\<exists>s1 s2 s3 s5 s6 s7 s'. check_missing_data (loaded example_frame) = Inr s1 \<and>
     handle_missing_values s1 = Inr s2 \<and>
     clean_text (normalize_dates example_parse example_range s2) = Inr s3 \<and>
     filter_non_english_reviews (remove_duplicates s3) = Inr s5 \<and>
     validate_ratings s5 = Inr s6 \<and> prepare_final_output s6 = Inr s7 \<and>
     process example_parse example_range (Inr example_frame) True = Inr (True, s') \<and>
     length (rows (df s1)) \<le> 7 \<and>
     length (rows (df s2)) \<le> length (rows (df s1)) \<and>
     length (rows (df s3)) \<le> length (rows (df (normalize_dates example_parse example_range s2))) \<and>
     length (rows (df s5)) \<le> length (rows (df (remove_duplicates s3))) \<and>
     length (rows (df s6)) \<le> length (rows (df s5)) \<and>
     length (rows (df s7)) \<le> length (rows (df s6)) \<and>
     stats_get (stats s') ''original_count'' 0 = 7 \<and>
     stats_get (stats s') ''final_count'' 0 = 2 \<and>
     retention_rate (stats s') \<le> 100"
proof -
  from example_process obtain s1 s2 s3 s5 s6 s7 s' where run:
    "check_missing_data (loaded example_frame) = Inr s1" "handle_missing_values s1 = Inr s2"
    "clean_text (normalize_dates example_parse example_range s2) = Inr s3"
    "filter_non_english_reviews (remove_duplicates s3) = Inr s5"
    "validate_ratings s5 = Inr s6" "prepare_final_output s6 = Inr s7"
    and p: "process example_parse example_range (Inr example_frame) True = Inr (True, s')"
    and two: "df s' = df s7" "length (rows (df s7)) = 2"
    by blast
  have n: "length (rows example_frame) = 7"
    by (simp add: example_frame_def)
  have l1: "length (rows (df s1)) \<le> 7"
    using record_count_never_grows [of "loaded example_frame" s1] run(1) n by simp
  have l2: "length (rows (df s2)) \<le> length (rows (df s1))"
    using record_count_never_grows [of s1 s2] run(2) by blast
  have l3: "length (rows (df s3)) \<le> length (rows (df (normalize_dates example_parse example_range s2)))"
    using record_count_never_grows [of "normalize_dates example_parse example_range s2" s3] run(3)
    by blast
  have l5: "length (rows (df s5)) \<le> length (rows (df (remove_duplicates s3)))"
    using record_count_never_grows [of "remove_duplicates s3" s5] run(4) by blast
  have l6: "length (rows (df s6)) \<le> length (rows (df s5))"
    using record_count_never_grows [of s5 s6] run(5) by blast
  have l7: "length (rows (df s7)) \<le> length (rows (df s6))"
    using record_count_never_grows [of s6 s7] run(6) by blast
  have "stats_get (stats s') ''original_count'' 0 = 7 \<and>
     stats_get (stats s') ''final_count'' 0 = 2 \<and> retention_rate (stats s') \<le> 100"
    using record_count_never_grows [of _ s' example_parse example_range example_frame True True] p n two
    by simp
  with run p l1 l2 l3 l5 l6 l7 show ?thesis by blast
qed

end
